theory Spec2Isabelle
  imports Complex_Main "HOL-Library.Product_Lexorder" "HOL-Library.Multiset"
begin

section \<open>Hydraulic head profiles along a pipeline (src/src/fluido.py)\<close>

text \<open>
  Python floats are modelled as real numbers: the development is about the arithmetic
  and the list manipulation of the engine, not about rounding, overflow or NaN.
  Every exception the source can raise is a value of \<open>py_error\<close> on the left of a sum.
\<close>

datatype py_error = IndexError | ZeroDivisionError | ValueError | TypeError

subsection \<open>Data\<close>

text \<open>
  The terrain is the two-column table read from the CSV file (column 0 is the distance
  \<open>x\<close>, column 1 the elevation \<open>z\<close>): a list of rows.
\<close>

type_synonym terreno = "(real \<times> real) list"

text \<open>The dict \<open>fluido\<close> with the keys the generators read.\<close>

record fluido =
  densidad :: real
  viscosidad :: real
  velocidad :: real

text \<open>The dict \<open>tuberia\<close>; \<open>rugosidad\<close> is read with \<open>.get('rugosidad', 0.0002)\<close>.\<close>

record tuberia =
  diametro :: real
  rugosidad :: "real option"

text \<open>A pump dict \<open>{'x': ..., 'head': ...}\<close>; \<open>head\<close> may be \<open>None\<close>.\<close>

record bomba =
  bomba_x :: real
  bomba_head :: "real option"

definition G :: real where
  "G = 981 / 100"

subsection \<open>Library functions the engine calls\<close>

text \<open>
  \<open>numpy.linspace(start, stop, num)\<close> with the end point included: \<open>num\<close> samples
  \<open>start + i * step\<close> with \<open>step = (stop - start) / (num - 1)\<close>; a single sample is
  \<open>start\<close>; a negative \<open>num\<close> raises ValueError.
\<close>

definition linspace :: "real \<Rightarrow> real \<Rightarrow> int \<Rightarrow> py_error + real list" where
  "linspace start stop num =
     (if num < 0 then Inl ValueError
      else if num = 1 then Inr [start]
      else Inr (map (\<lambda>i. start + real i * ((stop - start) / real (nat num - 1))) [0..<nat num]))"

text \<open>
  \<open>numpy.interp(x, xp, fp)\<close> for a scalar \<open>x\<close> and weakly increasing sample points
  \<open>xp\<close>: the end values outside the range of \<open>xp\<close>; otherwise, with \<open>j\<close> the last
  index such that \<open>xp[j] \<le> x\<close>, the value \<open>fp[j]\<close> when \<open>j\<close> is the last index or
  \<open>xp[j] = x\<close>, and the linear interpolation between samples \<open>j\<close> and \<open>j + 1\<close> otherwise.
  An empty \<open>xp\<close> and lists of different lengths raise ValueError.
\<close>

definition ultimo_indice_le :: "real \<Rightarrow> real list \<Rightarrow> nat" where
  "ultimo_indice_le x xp = length (takeWhile (\<lambda>v. \<not> v \<le> x) (rev xp))"

definition np_interp :: "real \<Rightarrow> real list \<Rightarrow> real list \<Rightarrow> py_error + real" where
  "np_interp x xp fp =
     (if xp = [] \<or> length xp \<noteq> length fp then Inl ValueError
      else if x > last xp then Inr (last fp)
      else if x < hd xp then Inr (hd fp)
      else
        let j = length xp - 1 - ultimo_indice_le x xp in
        if j = length xp - 1 then Inr (fp ! j)
        else if xp ! j = x then Inr (fp ! j)
        else
          let slope = (fp ! (j + 1) - fp ! j) / (xp ! (j + 1) - xp ! j)
          in Inr (slope * (x - xp ! j) + fp ! j))"

subsection \<open>Terrain interpolation: \<open>interpolar_perfil\<close>\<close>

text \<open>
  One iteration of the loop over the segments \<open>i = 0 .. len(x) - 2\<close>: the segment is
  sampled with \<open>num_puntos_extra + 2\<close> points and, from the second segment on, its first
  sample (the previous segment's last one) is dropped.
\<close>

definition interpolar_paso ::
  "real list \<Rightarrow> real list \<Rightarrow> int \<Rightarrow> nat \<Rightarrow> py_error + (real list \<times> real list)
     \<Rightarrow> py_error + (real list \<times> real list)" where
  "interpolar_paso x z num_puntos_extra i acc =
     (case acc of
        Inl e \<Rightarrow> Inl e
      | Inr (x_interp, z_interp) \<Rightarrow>
          (case linspace (x ! i) (x ! (i + 1)) (num_puntos_extra + 2) of
             Inl e \<Rightarrow> Inl e
           | Inr xs \<Rightarrow>
               (case linspace (z ! i) (z ! (i + 1)) (num_puntos_extra + 2) of
                  Inl e \<Rightarrow> Inl e
                | Inr zs \<Rightarrow>
                    Inr (x_interp @ (if i > 0 then drop 1 xs else xs),
                         z_interp @ (if i > 0 then drop 1 zs else zs)))))"

definition interpolar_perfil :: "terreno \<Rightarrow> int \<Rightarrow> py_error + (real list \<times> real list)" where
  "interpolar_perfil df num_puntos_extra =
     (let x = map fst df; z = map snd df
      in fold (interpolar_paso x z num_puntos_extra) [0..<length x - 1] (Inr ([], [])))"

subsection \<open>Friction factor\<close>

text \<open>
  One pass of the body of the loop of \<open>colebrook\<close>:
  \<open>f = (-2*math.log10((epsilon/(3.7*D)) + (2.51/(Re*math.sqrt(f)))))**-2\<close>.
  A division by zero, the square root of a negative number, the logarithm of a
  non-positive number and a zero raised to a negative power raise.
\<close>

definition colebrook_paso :: "real \<Rightarrow> real \<Rightarrow> real \<Rightarrow> real \<Rightarrow> py_error + real" where
  "colebrook_paso Reyn D epsilon f =
     (if 3.7 * D = 0 then Inl ZeroDivisionError
      else if f < 0 then Inl ValueError
      else if Reyn * sqrt f = 0 then Inl ZeroDivisionError
      else
        let a = epsilon / (3.7 * D) + 2.51 / (Reyn * sqrt f) in
        if a \<le> 0 then Inl ValueError
        else
          let b = - 2 * log 10 a in
          if b = 0 then Inl ZeroDivisionError else Inr (1 / b ^ 2))"

text \<open>
  The loop \<open>for _ in range(max_iter)\<close> with its \<open>break\<close>; the first argument counts the
  iterations that remain.
\<close>

fun colebrook_bucle :: "nat \<Rightarrow> real \<Rightarrow> real \<Rightarrow> real \<Rightarrow> real \<Rightarrow> real \<Rightarrow> py_error + real" where
  "colebrook_bucle 0 Reyn D epsilon tol f = Inr f"
| "colebrook_bucle (Suc n) Reyn D epsilon tol f =
     (case colebrook_paso Reyn D epsilon f of
        Inl e \<Rightarrow> Inl e
      | Inr f' \<Rightarrow>
          if \<bar>f' - f\<bar> < tol then Inr f'
          else colebrook_bucle n Reyn D epsilon tol f')"

text \<open>\<open>colebrook(Re, D, epsilon, tol=1e-6, max_iter=100)\<close>, started at \<open>f = 0.02\<close>.\<close>

definition colebrook_tol :: "real \<Rightarrow> real \<Rightarrow> real \<Rightarrow> real \<Rightarrow> nat \<Rightarrow> py_error + real" where
  "colebrook_tol Reyn D epsilon tol max_iter = colebrook_bucle max_iter Reyn D epsilon tol 0.02"

definition colebrook :: "real \<Rightarrow> real \<Rightarrow> real \<Rightarrow> py_error + real" where
  "colebrook Reyn D epsilon = colebrook_tol Reyn D epsilon (1 / 10 ^ 6) 100"

text \<open>
  The expression \<open>64 / Re if Re < 2000 else colebrook(Re, D, epsilon)\<close> that the three
  generators evaluate.
\<close>

definition factor_friccion :: "real \<Rightarrow> real \<Rightarrow> real \<Rightarrow> py_error + real" where
  "factor_friccion Reyn D epsilon =
     (if Reyn < 2000 then (if Reyn = 0 then Inl ZeroDivisionError else Inr (64 / Reyn))
      else colebrook Reyn D epsilon)"

text \<open>
  The common prologue of the generators: the Reynolds number
  \<open>Re = rho * v * D / mu\<close> and then the friction factor.
\<close>

definition rugosidad_o_defecto :: "tuberia \<Rightarrow> real" where
  "rugosidad_o_defecto tb = (case rugosidad tb of None \<Rightarrow> 0.0002 | Some e \<Rightarrow> e)"

definition reynolds :: "fluido \<Rightarrow> tuberia \<Rightarrow> py_error + real" where
  "reynolds fl tb =
     (if viscosidad fl = 0 then Inl ZeroDivisionError
      else Inr (densidad fl * velocidad fl * diametro tb / viscosidad fl))"

definition factor_del_sistema :: "fluido \<Rightarrow> tuberia \<Rightarrow> py_error + real" where
  "factor_del_sistema fl tb =
     (case reynolds fl tb of
        Inl e \<Rightarrow> Inl e
      | Inr Reyn \<Rightarrow> factor_friccion Reyn (diametro tb) (rugosidad_o_defecto tb))"

text \<open>
  The Darcy-Weisbach loss of one segment,
  \<open>L_real = sqrt(dx**2 + dz**2)\<close> and \<open>hf = f * (L_real / D) * (v**2) / (2 * G)\<close>.
\<close>

definition perdida :: "real \<Rightarrow> real \<Rightarrow> real \<Rightarrow> real \<Rightarrow> real \<Rightarrow> real" where
  "perdida f D v dx dz = f * (sqrt (dx ^ 2 + dz ^ 2) / D) * (v ^ 2) / (2 * G)"

subsection \<open>Forward generator with automatic pumps: \<open>generar_perfil_con_bombas_automaticas\<close>\<close>

text \<open>The state of the walk: \<open>x_final\<close>, \<open>h_final\<close> and \<open>bombas\<close>.\<close>

type_synonym estado = "real list \<times> real list \<times> bomba list"

text \<open>The body of the loop over \<open>i = 1 .. len(x) - 1\<close>.\<close>

definition automaticas_paso ::
  "real list \<Rightarrow> real list \<Rightarrow> real \<Rightarrow> real \<Rightarrow> real \<Rightarrow> real \<Rightarrow> real \<Rightarrow> nat \<Rightarrow> estado \<Rightarrow> estado" where
  "automaticas_paso x z f D v altura_seguridad head_bomba i st =
     (case st of (x_final, h_final, bombas) \<Rightarrow>
        let dx = x ! i - x ! (i - 1);
            dz = z ! i - z ! (i - 1);
            hf = perdida f D v dx dz;
            h_nueva = last h_final - hf;
            x_final = x_final @ [x ! i];
            h_final = h_final @ [h_nueva]
        in if h_nueva - z ! i \<le> altura_seguridad
           then
             let h_antes_bomba = h_nueva;
                 bombas = bombas @ [\<lparr>bomba_x = x ! i, bomba_head = Some head_bomba\<rparr>];
                 x_final = x_final @ [x ! i];
                 h_final = h_final @ [h_antes_bomba + head_bomba];
                 h_nueva = h_antes_bomba + head_bomba;
                 h_final = h_final[length h_final - 1 := h_nueva]
             in (x_final, h_final, bombas)
           else (x_final, h_final, bombas))"

text \<open>The analysis of the first point, before the loop.\<close>

definition automaticas_inicio :: "real list \<Rightarrow> real list \<Rightarrow> real \<Rightarrow> real \<Rightarrow> real \<Rightarrow> estado" where
  "automaticas_inicio x z presion_inicial_m altura_seguridad head_bomba =
     (let h_final = [presion_inicial_m + z ! 0];
          x_final = [x ! 0];
          h0 = presion_inicial_m + z ! 0
      in if h0 - z ! 0 \<le> altura_seguridad
         then (x_final @ [x ! 0], h_final @ [h0 + head_bomba],
               [\<lparr>bomba_x = x ! 0, bomba_head = Some head_bomba\<rparr>])
         else (x_final @ [x ! 0], h_final @ [h0], []))"

text \<open>
  The whole generator. \<open>num_puntos_extra\<close> is \<open>None\<close> (the terrain as read) or a number
  of extra points for \<open>interpolar_perfil\<close>. An empty terrain raises IndexError at
  \<open>z[0]\<close>; a zero diameter would raise at the first \<open>L_real / D\<close>.
\<close>

definition generar_perfil_con_bombas_automaticas ::
  "terreno \<Rightarrow> fluido \<Rightarrow> tuberia \<Rightarrow> real \<Rightarrow> real \<Rightarrow> real \<Rightarrow> int option \<Rightarrow> py_error + estado" where
  "generar_perfil_con_bombas_automaticas df fl tb presion_inicial_m altura_seguridad head_bomba
       num_puntos_extra =
     (case (case num_puntos_extra of
              None \<Rightarrow> Inr (map fst df, map snd df)
            | Some k \<Rightarrow> interpolar_perfil df k) of
        Inl e \<Rightarrow> Inl e
      | Inr (x, z) \<Rightarrow>
          (case factor_del_sistema fl tb of
             Inl e \<Rightarrow> Inl e
           | Inr f \<Rightarrow>
               if x = [] then Inl IndexError
               else if 1 < length x \<and> diametro tb = 0 then Inl ZeroDivisionError
               else Inr (fold (automaticas_paso x z f (diametro tb) (velocidad fl)
                                 altura_seguridad head_bomba)
                           [1..<length x]
                           (automaticas_inicio x z presion_inicial_m altura_seguridad head_bomba))))"


subsection \<open>Inserting a pump into a profile\<close>

text \<open>
  \<open>x_final, h_final = zip(*sorted(zip(x_final, h_final)))\<close>: the samples are sorted as
  pairs (position first, then head); nothing can be unpacked from an empty list.
\<close>

definition reordenar :: "real list \<Rightarrow> real list \<Rightarrow> py_error + (real list \<times> real list)" where
  "reordenar x_final h_final =
     (let s = sort (zip x_final h_final)
      in if s = [] then Inl ValueError else Inr (map fst s, map snd s))"

text \<open>\<open>x_final.index(x_b)\<close>: the first index holding the value, ValueError without one.\<close>

definition indice :: "real list \<Rightarrow> real \<Rightarrow> py_error + nat" where
  "indice xs v =
     (if v \<in> set xs then Inr (length (takeWhile (\<lambda>u. u \<noteq> v) xs)) else Inl ValueError)"

text \<open>\<open>xs.insert(i, v)\<close> for an index \<open>0 \<le> i\<close>.\<close>

definition insertar :: "nat \<Rightarrow> 'a \<Rightarrow> 'a list \<Rightarrow> 'a list" where
  "insertar i v xs = take i xs @ v # drop i xs"

text \<open>
  \<open>h_final[idx_bomba + 1] += head\<close> followed by the loop
  \<open>for i in range(idx_bomba + 2, len(h_final)): h_final[i] += head\<close>. A head that is
  \<open>None\<close> cannot be added.
\<close>

definition sumar_head :: "nat \<Rightarrow> real option \<Rightarrow> real list \<Rightarrow> py_error + real list" where
  "sumar_head idx_bomba head h_final =
     (if length h_final \<le> idx_bomba + 1 then Inl IndexError
      else case head of
             None \<Rightarrow> Inl TypeError
           | Some hd_b \<Rightarrow>
               Inr (fold (\<lambda>i h. h[i := h ! i + hd_b]) [idx_bomba + 2..<length h_final]
                      (h_final[idx_bomba + 1 := h_final ! (idx_bomba + 1) + hd_b])))"

text \<open>
  The statements that \<open>generar_perfil_presion\<close> (the body of its loop over the pumps)
  and \<open>agregar_bomba\<close> share: interpolate the head at the pump if its position is new,
  sort, find the pump's index, insert the point before the pump (the head interpolated at
  \<open>x_b - 1e-6\<close>, or the sample itself at index 0) and add the head from the pump on.
  The position inserted is \<open>x_final[idx_bomba]\<close> in the generator and \<open>x_b\<close> in
  \<open>agregar_bomba\<close>: the same value, since \<open>idx_bomba = x_final.index(x_b)\<close>.
\<close>

definition colocar_bomba ::
  "real list \<Rightarrow> real list \<Rightarrow> real \<Rightarrow> real option \<Rightarrow> py_error + (real list \<times> real list)" where
  "colocar_bomba x_final h_final x_b head =
     (case (if x_b \<notin> set x_final
            then (case np_interp x_b x_final h_final of
                    Inl e \<Rightarrow> Inl e
                  | Inr h_bomba \<Rightarrow> Inr (x_final @ [x_b], h_final @ [h_bomba]))
            else Inr (x_final, h_final)) of
        Inl e \<Rightarrow> Inl e
      | Inr (x_final, h_final) \<Rightarrow>
          (case reordenar x_final h_final of
             Inl e \<Rightarrow> Inl e
           | Inr (x_final, h_final) \<Rightarrow>
               (case indice x_final x_b of
                  Inl e \<Rightarrow> Inl e
                | Inr idx_bomba \<Rightarrow>
                    (case (if idx_bomba > 0 then np_interp (x_b - 1 / 10 ^ 6) x_final h_final
                           else Inr (h_final ! idx_bomba)) of
                       Inl e \<Rightarrow> Inl e
                     | Inr h_antes \<Rightarrow>
                         (case sumar_head idx_bomba head (insertar idx_bomba h_antes h_final) of
                            Inl e \<Rightarrow> Inl e
                          | Inr h_final \<Rightarrow> Inr (insertar idx_bomba x_b x_final, h_final))))))"

text \<open>
  \<open>agregar_bomba(x_final, h_final, x_b, head)\<close>: the last head is saved first and the
  whole profile is shifted at the end so that the last head is the saved one.
\<close>

definition agregar_bomba ::
  "real list \<Rightarrow> real list \<Rightarrow> real \<Rightarrow> real \<Rightarrow> py_error + (real list \<times> real list)" where
  "agregar_bomba x_final h_final x_b head =
     (if h_final = [] then Inl IndexError
      else
        let h_final_original = last h_final in
        case colocar_bomba x_final h_final x_b (Some head) of
          Inl e \<Rightarrow> Inl e
        | Inr (x_final, h_final) \<Rightarrow>
            let delta = h_final_original - last h_final
            in Inr (x_final, map (\<lambda>h. h + delta) h_final))"

subsection \<open>Backward generator with a known final head: \<open>generar_perfil_presion\<close>\<close>

text \<open>
  The loop over \<open>i = 1 .. len(x_rev) - 1\<close> that accumulates the losses from the far end,
  started at \<open>[presion_final_m + z_rev[0]]\<close>.
\<close>

definition perfil_reverso ::
  "real list \<Rightarrow> real list \<Rightarrow> real \<Rightarrow> real \<Rightarrow> real \<Rightarrow> real \<Rightarrow> real list" where
  "perfil_reverso x_rev z_rev f D v presion_final_m =
     fold (\<lambda>i h_total_rev.
             let dx = x_rev ! (i - 1) - x_rev ! i;
                 dz = z_rev ! (i - 1) - z_rev ! i;
                 hf = perdida f D v dx dz
             in h_total_rev @ [last h_total_rev + hf])
       [1..<length x_rev] [presion_final_m + z_rev ! 0]"

text \<open>
  The first part of both backward generators: friction factor, reversed terrain,
  accumulated losses, and the lists put back in ascending order.
\<close>

definition perfil_sin_bombas ::
  "terreno \<Rightarrow> fluido \<Rightarrow> tuberia \<Rightarrow> real \<Rightarrow> py_error + (real list \<times> real list)" where
  "perfil_sin_bombas df fl tb presion_final_m =
     (case factor_del_sistema fl tb of
        Inl e \<Rightarrow> Inl e
      | Inr f \<Rightarrow>
          let x = map fst df; z = map snd df; x_rev = rev x; z_rev = rev z
          in if z_rev = [] then Inl IndexError
             else if 1 < length x_rev \<and> diametro tb = 0 then Inl ZeroDivisionError
             else
               let h_total_rev =
                     perfil_reverso x_rev z_rev f (diametro tb) (velocidad fl) presion_final_m
               in Inr (rev x_rev, rev h_total_rev))"

text \<open>The loop \<open>for bomba in bombas\<close> of \<open>generar_perfil_presion\<close>.\<close>

fun insertar_bombas ::
  "bomba list \<Rightarrow> real list \<times> real list \<Rightarrow> py_error + (real list \<times> real list)" where
  "insertar_bombas [] p = Inr p"
| "insertar_bombas (b # bs) (x_final, h_final) =
     (case colocar_bomba x_final h_final (bomba_x b) (bomba_head b) of
        Inl e \<Rightarrow> Inl e
      | Inr p \<Rightarrow> insertar_bombas bs p)"

definition generar_perfil_presion ::
  "terreno \<Rightarrow> fluido \<Rightarrow> tuberia \<Rightarrow> real \<Rightarrow> bomba list \<Rightarrow> py_error + (real list \<times> real list)" where
  "generar_perfil_presion df fl tb presion_final_m bombas =
     (case perfil_sin_bombas df fl tb presion_final_m of
        Inl e \<Rightarrow> Inl e
      | Inr (x_list, h_list) \<Rightarrow>
          (case insertar_bombas (sort_key bomba_x bombas) (x_list, h_list) of
             Inl e \<Rightarrow> Inl e
           | Inr (x_final, h_final) \<Rightarrow>
               let delta = (presion_final_m + last (map snd df)) - last h_final
               in Inr (x_final, map (\<lambda>h. h + delta) h_final)))"

subsection \<open>Boundary-constrained generator: \<open>generar_perfil_presion_con_bomba_desconocida\<close>\<close>

text \<open>
  The loop over \<open>bombas_conocidas\<close>: each pump goes through \<open>agregar_bomba\<close> and is
  appended to \<open>bombas_result\<close>.
\<close>

fun agregar_conocidas :: "bomba list \<Rightarrow> estado \<Rightarrow> py_error + estado" where
  "agregar_conocidas [] st = Inr st"
| "agregar_conocidas (b # bs) (x_final, h_final, bombas_result) =
     (case bomba_head b of
        None \<Rightarrow> Inl TypeError
      | Some head \<Rightarrow>
          (case agregar_bomba x_final h_final (bomba_x b) head of
             Inl e \<Rightarrow> Inl e
           | Inr (x_final, h_final) \<Rightarrow>
               agregar_conocidas bs
                 (x_final, h_final,
                  bombas_result @ [\<lparr>bomba_x = bomba_x b, bomba_head = Some head\<rparr>])))"

definition generar_perfil_presion_con_bomba_desconocida ::
  "terreno \<Rightarrow> fluido \<Rightarrow> tuberia \<Rightarrow> real \<Rightarrow> real \<Rightarrow> bomba list \<Rightarrow> py_error + estado" where
  "generar_perfil_presion_con_bomba_desconocida df fl tb presion_inicial_m presion_final_m bombas =
     (case perfil_sin_bombas df fl tb presion_final_m of
        Inl e \<Rightarrow> Inl e
      | Inr (x_list, h_list) \<Rightarrow>
          (case agregar_conocidas (filter (\<lambda>b. bomba_head b \<noteq> None) bombas) (x_list, h_list, []) of
             Inl e \<Rightarrow> Inl e
           | Inr (x_final, h_final, bombas_result) \<Rightarrow>
               let h_deseada_inicial = presion_inicial_m + map snd df ! 0;
                   delta_inicial = h_final ! 0 - h_deseada_inicial
               in (case filter (\<lambda>b. bomba_head b = None) bombas of
                     [] \<Rightarrow> Inr (x_final, h_final, bombas_result)
                   | b # _ \<Rightarrow>
                       let head = delta_inicial in
                       (case agregar_bomba x_final h_final (bomba_x b) head of
                          Inl e \<Rightarrow> Inl e
                        | Inr (x_final, h_final) \<Rightarrow>
                            Inr (x_final, h_final,
                                 bombas_result @ [\<lparr>bomba_x = bomba_x b, bomba_head = Some head\<rparr>])))))"


section \<open>Definitions used to state and prove the properties\<close>

text \<open>
  The densified polyline as the specification describes it: sample \<open>j\<close> lies in segment
  \<open>j div (K + 1)\<close>, at the fraction \<open>(j mod (K + 1)) / (K + 1)\<close> of the way from the
  segment's start to its end, where \<open>K\<close> is the number of extra points per segment.
\<close>

definition spec_muestra :: "real list \<Rightarrow> nat \<Rightarrow> nat \<Rightarrow> real" where
  "spec_muestra x K j =
     (let s = j div (K + 1); r = j mod (K + 1)
      in x ! s + real r * ((x ! (s + 1) - x ! s) / real (K + 1)))"

text \<open>Sample \<open>i\<close> of one segment from \<open>a\<close> to \<open>b\<close>, and the \<open>K + 2\<close> samples of a segment.\<close>

definition tramo :: "real \<Rightarrow> real \<Rightarrow> nat \<Rightarrow> nat \<Rightarrow> real" where
  "tramo a b K i = a + real i * ((b - a) / real (K + 1))"

definition tramos :: "real \<Rightarrow> real \<Rightarrow> nat \<Rightarrow> real list" where
  "tramos a b K = map (tramo a b K) [0..<K + 2]"

text \<open>The lists \<open>x_interp\<close> and \<open>z_interp\<close> after \<open>m\<close> segments.\<close>

definition puntos :: "real list \<Rightarrow> nat \<Rightarrow> nat \<Rightarrow> real list" where
  "puntos x K m = (if m = 0 then [] else map (spec_muestra x K) [0..<m * (K + 1)] @ [x ! m])"

text \<open>
  The walk of the forward generator never touches its first two samples again: the
  state \<open>st\<close> still starts with the two samples of the initial state \<open>st0\<close>.
\<close>

definition inicio_ok :: "estado \<Rightarrow> estado \<Rightarrow> bool" where
  "inicio_ok st0 st =
     (case (st0, st) of ((x0, h0, b0), (x1, h1, b1)) \<Rightarrow>
        2 \<le> length x0 \<and> 2 \<le> length h0 \<and> take 2 x1 = take 2 x0 \<and> take 2 h1 = take 2 h0)"


text \<open>
  The friction factor in the specification's words: the map
  \<open>f \<mapsto> (-2 * log10(roughness / (3.7 * diameter) + 2.51 / (reynolds * sqrt f)))^-2\<close>,
  its iterates from a starting value, and the number of the iterate at which the
  iteration stops: the first \<open>n\<close> among \<open>1, ..., max_iter\<close> whose iterate differs from the
  previous one by less than \<open>tol\<close>, and \<open>max_iter\<close> when there is none. The map has a
  pole where the argument of the logarithm is 1 (the base of the power is then 0).
\<close>

definition spec_colebrook :: "real \<Rightarrow> real \<Rightarrow> real \<Rightarrow> real \<Rightarrow> real" where
  "spec_colebrook Reyn D epsilon f =
     1 / (- 2 * log 10 (epsilon / (3.7 * D) + 2.51 / (Reyn * sqrt f))) ^ 2"

definition polo :: "real \<Rightarrow> real \<Rightarrow> real \<Rightarrow> real \<Rightarrow> bool" where
  "polo Reyn D epsilon f \<longleftrightarrow> epsilon / (3.7 * D) + 2.51 / (Reyn * sqrt f) = 1"

definition spec_iterado :: "real \<Rightarrow> real \<Rightarrow> real \<Rightarrow> real \<Rightarrow> nat \<Rightarrow> real" where
  "spec_iterado Reyn D epsilon f0 n = (spec_colebrook Reyn D epsilon ^^ n) f0"

definition spec_parada :: "real \<Rightarrow> real \<Rightarrow> real \<Rightarrow> real \<Rightarrow> nat \<Rightarrow> real \<Rightarrow> nat" where
  "spec_parada Reyn D epsilon tol max_iter f0 =
     (case find (\<lambda>n. \<bar>spec_iterado Reyn D epsilon f0 n - spec_iterado Reyn D epsilon f0 (n - 1)\<bar> < tol)
             [1..<max_iter + 1] of
        Some n \<Rightarrow> n
      | None \<Rightarrow> max_iter)"

text \<open>
  The steps of the insertion of a pump, named: the value of an interpolation that does
  not raise; the samples after the optional interpolated sample is appended and the pairs
  are sorted; the index of the pump in them; the head of the point inserted before the
  pump; and the lists with the point inserted and the head added from the pump on.
\<close>

definition valor_interp :: "real \<Rightarrow> real list \<Rightarrow> real list \<Rightarrow> real" where
  "valor_interp x xp fp = (case np_interp x xp fp of Inr v \<Rightarrow> v | Inl e \<Rightarrow> 0)"

definition muestras_ordenadas :: "real list \<Rightarrow> real list \<Rightarrow> real \<Rightarrow> (real \<times> real) list" where
  "muestras_ordenadas xs hs x_b =
     sort (if x_b \<in> set xs then zip xs hs else zip xs hs @ [(x_b, valor_interp x_b xs hs)])"

definition idx_de :: "(real \<times> real) list \<Rightarrow> real \<Rightarrow> nat" where
  "idx_de S x_b = length (takeWhile (\<lambda>u. u \<noteq> x_b) (map fst S))"

definition altura_antes :: "(real \<times> real) list \<Rightarrow> real \<Rightarrow> real" where
  "altura_antes S x_b =
     (if idx_de S x_b > 0 then valor_interp (x_b - 1 / 10 ^ 6) (map fst S) (map snd S)
      else map snd S ! idx_de S x_b)"

definition con_bomba :: "(real \<times> real) list \<Rightarrow> real \<Rightarrow> real \<Rightarrow> real list \<times> real list" where
  "con_bomba S x_b head =
     (let idx = idx_de S x_b
      in (take idx (map fst S) @ x_b # drop idx (map fst S),
          take idx (map snd S) @ altura_antes S x_b # map (\<lambda>h. h + head) (drop idx (map snd S))))"

text \<open>
  The re-sorting as the specification words it: sorted by position, samples at equal
  positions kept in their original order (a stable sort on the position alone).
\<close>

definition spec_reordenar :: "real list \<Rightarrow> real list \<Rightarrow> py_error + (real list \<times> real list)" where
  "spec_reordenar x_final h_final =
     (let s = sort_key fst (zip x_final h_final)
      in if s = [] then Inl ValueError else Inr (map fst s, map snd s))"

section \<open>The same engine with rounded arithmetic\<close>

text \<open>
  The program computes in IEEE double precision. \<open>doble\<close> rounds a real number to the
  nearest number with a 53-bit significand, ties to the even significand; overflow to
  infinity and the subnormal range are not modelled. The definitions below repeat the
  generators with a rounding \<open>r\<close> applied to the result of every floating-point operation,
  in the order in which Python evaluates the expression: with \<open>r = doble\<close> they are the
  program on doubles, with the identity they are the definitions above. Inputs are taken
  to be doubles already. \<open>math.sqrt\<close>, \<open>math.log10\<close> and \<open>**\<close> are taken as correctly
  rounded.
\<close>

definition redondeo_par :: "real \<Rightarrow> int" where
  "redondeo_par y =
     (let n = \<lfloor>y\<rfloor>; d = y - of_int n
      in if d < 1 / 2 then n else if 1 / 2 < d then n + 1 else if even n then n else n + 1)"

definition doble :: "real \<Rightarrow> real" where
  "doble x =
     (if x = 0 then 0
      else let e = \<lfloor>log 2 \<bar>x\<bar>\<rfloor> - 52
           in of_int (redondeo_par (x / 2 powr of_int e)) * 2 powr of_int e)"

text \<open>\<open>hf = f * (L_real / D) * (v**2) / (2 * G)\<close> with \<open>L_real = math.sqrt(dx**2 + dz**2)\<close>.\<close>

definition perdida_r :: "(real \<Rightarrow> real) \<Rightarrow> real \<Rightarrow> real \<Rightarrow> real \<Rightarrow> real \<Rightarrow> real \<Rightarrow> real" where
  "perdida_r r f D v dx dz =
     (let L_real = r (sqrt (r (r (dx ^ 2) + r (dz ^ 2))))
      in r (r (r (f * r (L_real / D)) * r (v ^ 2)) / r (2 * r (981 / 100))))"

definition reynolds_r :: "(real \<Rightarrow> real) \<Rightarrow> fluido \<Rightarrow> tuberia \<Rightarrow> py_error + real" where
  "reynolds_r r fl tb =
     (if viscosidad fl = 0 then Inl ZeroDivisionError
      else Inr (r (r (r (densidad fl * velocidad fl) * diametro tb) / viscosidad fl)))"

definition colebrook_paso_r ::
  "(real \<Rightarrow> real) \<Rightarrow> real \<Rightarrow> real \<Rightarrow> real \<Rightarrow> real \<Rightarrow> py_error + real" where
  "colebrook_paso_r r Reyn D epsilon f =
     (if r (r (37 / 10) * D) = 0 then Inl ZeroDivisionError
      else if f < 0 then Inl ValueError
      else if r (Reyn * r (sqrt f)) = 0 then Inl ZeroDivisionError
      else
        let a = r (r (epsilon / r (r (37 / 10) * D)) + r (r (251 / 100) / r (Reyn * r (sqrt f)))) in
        if a \<le> 0 then Inl ValueError
        else
          let b = r (- 2 * r (log 10 a)) in
          if b = 0 then Inl ZeroDivisionError else Inr (r (1 / b ^ 2)))"

fun colebrook_bucle_r ::
  "(real \<Rightarrow> real) \<Rightarrow> nat \<Rightarrow> real \<Rightarrow> real \<Rightarrow> real \<Rightarrow> real \<Rightarrow> real \<Rightarrow> py_error + real" where
  "colebrook_bucle_r r 0 Reyn D epsilon tol f = Inr f"
| "colebrook_bucle_r r (Suc n) Reyn D epsilon tol f =
     (case colebrook_paso_r r Reyn D epsilon f of
        Inl e \<Rightarrow> Inl e
      | Inr f' \<Rightarrow>
          if \<bar>r (f' - f)\<bar> < tol then Inr f'
          else colebrook_bucle_r r n Reyn D epsilon tol f')"

definition colebrook_r :: "(real \<Rightarrow> real) \<Rightarrow> real \<Rightarrow> real \<Rightarrow> real \<Rightarrow> py_error + real" where
  "colebrook_r r Reyn D epsilon =
     colebrook_bucle_r r 100 Reyn D epsilon (r (1 / 10 ^ 6)) (r (2 / 100))"

definition factor_friccion_r :: "(real \<Rightarrow> real) \<Rightarrow> real \<Rightarrow> real \<Rightarrow> real \<Rightarrow> py_error + real" where
  "factor_friccion_r r Reyn D epsilon =
     (if Reyn < 2000 then (if Reyn = 0 then Inl ZeroDivisionError else Inr (r (64 / Reyn)))
      else colebrook_r r Reyn D epsilon)"

definition factor_del_sistema_r :: "(real \<Rightarrow> real) \<Rightarrow> fluido \<Rightarrow> tuberia \<Rightarrow> py_error + real" where
  "factor_del_sistema_r r fl tb =
     (case reynolds_r r fl tb of
        Inl e \<Rightarrow> Inl e
      | Inr Reyn \<Rightarrow>
          factor_friccion_r r Reyn (diametro tb)
            (case rugosidad tb of None \<Rightarrow> r (2 / 10000) | Some e \<Rightarrow> e))"

text \<open>
  \<open>numpy.linspace\<close> on doubles: \<open>step = (stop - start) / (num - 1)\<close>, the samples
  \<open>i * step + start\<close> (or \<open>(i / (num - 1)) * (stop - start) + start\<close> when the step is 0),
  and the last sample set to \<open>stop\<close>.
\<close>

definition linspace_r :: "(real \<Rightarrow> real) \<Rightarrow> real \<Rightarrow> real \<Rightarrow> int \<Rightarrow> py_error + real list" where
  "linspace_r r start stop num =
     (if num < 0 then Inl ValueError
      else
        let n = nat num; divisor = real (n - 1); delta = r (stop - start);
            y = (if 0 < n - 1
                 then (let step = r (delta / divisor)
                       in if step = 0 then map (\<lambda>i. r (r (real i / divisor) * delta)) [0..<n]
                          else map (\<lambda>i. r (real i * step)) [0..<n])
                 else map (\<lambda>i. r (real i * delta)) [0..<n]);
            y = map (\<lambda>v. r (v + start)) y
        in Inr (if 1 < n then y[n - 1 := stop] else y))"

definition interpolar_paso_r ::
  "(real \<Rightarrow> real) \<Rightarrow> real list \<Rightarrow> real list \<Rightarrow> int \<Rightarrow> nat
     \<Rightarrow> py_error + (real list \<times> real list) \<Rightarrow> py_error + (real list \<times> real list)" where
  "interpolar_paso_r r x z num_puntos_extra i acc =
     (case acc of
        Inl e \<Rightarrow> Inl e
      | Inr (x_interp, z_interp) \<Rightarrow>
          (case linspace_r r (x ! i) (x ! (i + 1)) (num_puntos_extra + 2) of
             Inl e \<Rightarrow> Inl e
           | Inr xs \<Rightarrow>
               (case linspace_r r (z ! i) (z ! (i + 1)) (num_puntos_extra + 2) of
                  Inl e \<Rightarrow> Inl e
                | Inr zs \<Rightarrow>
                    Inr (x_interp @ (if i > 0 then drop 1 xs else xs),
                         z_interp @ (if i > 0 then drop 1 zs else zs)))))"

definition interpolar_perfil_r ::
  "(real \<Rightarrow> real) \<Rightarrow> terreno \<Rightarrow> int \<Rightarrow> py_error + (real list \<times> real list)" where
  "interpolar_perfil_r r df num_puntos_extra =
     (let x = map fst df; z = map snd df
      in fold (interpolar_paso_r r x z num_puntos_extra) [0..<length x - 1] (Inr ([], [])))"

text \<open>The forward generator.\<close>

definition automaticas_paso_r ::
  "(real \<Rightarrow> real) \<Rightarrow> real list \<Rightarrow> real list \<Rightarrow> real \<Rightarrow> real \<Rightarrow> real \<Rightarrow> real \<Rightarrow> real \<Rightarrow> nat
     \<Rightarrow> estado \<Rightarrow> estado" where
  "automaticas_paso_r r x z f D v altura_seguridad head_bomba i st =
     (case st of (x_final, h_final, bombas) \<Rightarrow>
        let dx = r (x ! i - x ! (i - 1));
            dz = r (z ! i - z ! (i - 1));
            hf = perdida_r r f D v dx dz;
            h_nueva = r (last h_final - hf);
            x_final = x_final @ [x ! i];
            h_final = h_final @ [h_nueva]
        in if r (h_nueva - z ! i) \<le> altura_seguridad
           then
             let h_antes_bomba = h_nueva;
                 bombas = bombas @ [\<lparr>bomba_x = x ! i, bomba_head = Some head_bomba\<rparr>];
                 x_final = x_final @ [x ! i];
                 h_final = h_final @ [r (h_antes_bomba + head_bomba)];
                 h_nueva = r (h_antes_bomba + head_bomba);
                 h_final = h_final[length h_final - 1 := h_nueva]
             in (x_final, h_final, bombas)
           else (x_final, h_final, bombas))"

definition automaticas_inicio_r ::
  "(real \<Rightarrow> real) \<Rightarrow> real list \<Rightarrow> real list \<Rightarrow> real \<Rightarrow> real \<Rightarrow> real \<Rightarrow> estado" where
  "automaticas_inicio_r r x z presion_inicial_m altura_seguridad head_bomba =
     (let h_final = [r (presion_inicial_m + z ! 0)];
          x_final = [x ! 0];
          h0 = r (presion_inicial_m + z ! 0)
      in if r (h0 - z ! 0) \<le> altura_seguridad
         then (x_final @ [x ! 0], h_final @ [r (h0 + head_bomba)],
               [\<lparr>bomba_x = x ! 0, bomba_head = Some head_bomba\<rparr>])
         else (x_final @ [x ! 0], h_final @ [h0], []))"

definition generar_perfil_con_bombas_automaticas_r ::
  "(real \<Rightarrow> real) \<Rightarrow> terreno \<Rightarrow> fluido \<Rightarrow> tuberia \<Rightarrow> real \<Rightarrow> real \<Rightarrow> real \<Rightarrow> int option
     \<Rightarrow> py_error + estado" where
  "generar_perfil_con_bombas_automaticas_r r df fl tb presion_inicial_m altura_seguridad
       head_bomba num_puntos_extra =
     (case (case num_puntos_extra of
              None \<Rightarrow> Inr (map fst df, map snd df)
            | Some k \<Rightarrow> interpolar_perfil_r r df k) of
        Inl e \<Rightarrow> Inl e
      | Inr (x, z) \<Rightarrow>
          (case factor_del_sistema_r r fl tb of
             Inl e \<Rightarrow> Inl e
           | Inr f \<Rightarrow>
               if x = [] then Inl IndexError
               else if 1 < length x \<and> diametro tb = 0 then Inl ZeroDivisionError
               else Inr (fold (automaticas_paso_r r x z f (diametro tb) (velocidad fl)
                                 altura_seguridad head_bomba)
                           [1..<length x]
                           (automaticas_inicio_r r x z presion_inicial_m altura_seguridad
                              head_bomba))))"

text \<open>The insertion of a pump and the backward generator.\<close>

definition np_interp_r ::
  "(real \<Rightarrow> real) \<Rightarrow> real \<Rightarrow> real list \<Rightarrow> real list \<Rightarrow> py_error + real" where
  "np_interp_r r x xp fp =
     (if xp = [] \<or> length xp \<noteq> length fp then Inl ValueError
      else if x > last xp then Inr (last fp)
      else if x < hd xp then Inr (hd fp)
      else
        let j = length xp - 1 - ultimo_indice_le x xp in
        if j = length xp - 1 then Inr (fp ! j)
        else if xp ! j = x then Inr (fp ! j)
        else
          let slope = r (r (fp ! (j + 1) - fp ! j) / r (xp ! (j + 1) - xp ! j))
          in Inr (r (r (slope * r (x - xp ! j)) + fp ! j)))"

definition sumar_head_r ::
  "(real \<Rightarrow> real) \<Rightarrow> nat \<Rightarrow> real option \<Rightarrow> real list \<Rightarrow> py_error + real list" where
  "sumar_head_r r idx_bomba head h_final =
     (if length h_final \<le> idx_bomba + 1 then Inl IndexError
      else case head of
             None \<Rightarrow> Inl TypeError
           | Some hd_b \<Rightarrow>
               Inr (fold (\<lambda>i h. h[i := r (h ! i + hd_b)]) [idx_bomba + 2..<length h_final]
                      (h_final[idx_bomba + 1 := r (h_final ! (idx_bomba + 1) + hd_b)])))"

definition colocar_bomba_r ::
  "(real \<Rightarrow> real) \<Rightarrow> real list \<Rightarrow> real list \<Rightarrow> real \<Rightarrow> real option
     \<Rightarrow> py_error + (real list \<times> real list)" where
  "colocar_bomba_r r x_final h_final x_b head =
     (case (if x_b \<notin> set x_final
            then (case np_interp_r r x_b x_final h_final of
                    Inl e \<Rightarrow> Inl e
                  | Inr h_bomba \<Rightarrow> Inr (x_final @ [x_b], h_final @ [h_bomba]))
            else Inr (x_final, h_final)) of
        Inl e \<Rightarrow> Inl e
      | Inr (x_final, h_final) \<Rightarrow>
          (case reordenar x_final h_final of
             Inl e \<Rightarrow> Inl e
           | Inr (x_final, h_final) \<Rightarrow>
               (case indice x_final x_b of
                  Inl e \<Rightarrow> Inl e
                | Inr idx_bomba \<Rightarrow>
                    (case (if idx_bomba > 0
                           then np_interp_r r (r (x_b - r (1 / 10 ^ 6))) x_final h_final
                           else Inr (h_final ! idx_bomba)) of
                       Inl e \<Rightarrow> Inl e
                     | Inr h_antes \<Rightarrow>
                         (case sumar_head_r r idx_bomba head (insertar idx_bomba h_antes h_final) of
                            Inl e \<Rightarrow> Inl e
                          | Inr h_final \<Rightarrow> Inr (insertar idx_bomba x_b x_final, h_final))))))"

definition perfil_reverso_r ::
  "(real \<Rightarrow> real) \<Rightarrow> real list \<Rightarrow> real list \<Rightarrow> real \<Rightarrow> real \<Rightarrow> real \<Rightarrow> real \<Rightarrow> real list" where
  "perfil_reverso_r r x_rev z_rev f D v presion_final_m =
     fold (\<lambda>i h_total_rev.
             let dx = r (x_rev ! (i - 1) - x_rev ! i);
                 dz = r (z_rev ! (i - 1) - z_rev ! i);
                 hf = perdida_r r f D v dx dz
             in h_total_rev @ [r (last h_total_rev + hf)])
       [1..<length x_rev] [r (presion_final_m + z_rev ! 0)]"

definition perfil_sin_bombas_r ::
  "(real \<Rightarrow> real) \<Rightarrow> terreno \<Rightarrow> fluido \<Rightarrow> tuberia \<Rightarrow> real \<Rightarrow> py_error + (real list \<times> real list)" where
  "perfil_sin_bombas_r r df fl tb presion_final_m =
     (case factor_del_sistema_r r fl tb of
        Inl e \<Rightarrow> Inl e
      | Inr f \<Rightarrow>
          let x = map fst df; z = map snd df; x_rev = rev x; z_rev = rev z
          in if z_rev = [] then Inl IndexError
             else if 1 < length x_rev \<and> diametro tb = 0 then Inl ZeroDivisionError
             else
               let h_total_rev =
                     perfil_reverso_r r x_rev z_rev f (diametro tb) (velocidad fl) presion_final_m
               in Inr (rev x_rev, rev h_total_rev))"

fun insertar_bombas_r ::
  "(real \<Rightarrow> real) \<Rightarrow> bomba list \<Rightarrow> real list \<times> real list \<Rightarrow> py_error + (real list \<times> real list)" where
  "insertar_bombas_r r [] p = Inr p"
| "insertar_bombas_r r (b # bs) (x_final, h_final) =
     (case colocar_bomba_r r x_final h_final (bomba_x b) (bomba_head b) of
        Inl e \<Rightarrow> Inl e
      | Inr p \<Rightarrow> insertar_bombas_r r bs p)"

definition generar_perfil_presion_r ::
  "(real \<Rightarrow> real) \<Rightarrow> terreno \<Rightarrow> fluido \<Rightarrow> tuberia \<Rightarrow> real \<Rightarrow> bomba list
     \<Rightarrow> py_error + (real list \<times> real list)" where
  "generar_perfil_presion_r r df fl tb presion_final_m bombas =
     (case perfil_sin_bombas_r r df fl tb presion_final_m of
        Inl e \<Rightarrow> Inl e
      | Inr (x_list, h_list) \<Rightarrow>
          (case insertar_bombas_r r (sort_key bomba_x bombas) (x_list, h_list) of
             Inl e \<Rightarrow> Inl e
           | Inr (x_final, h_final) \<Rightarrow>
               let delta = r (r (presion_final_m + last (map snd df)) - last h_final)
               in Inr (x_final, map (\<lambda>h. r (h + delta)) h_final)))"

text \<open>
  Two walks over the same terrain, the second with the larger safety margin, seen at the
  same step: either the second has placed a pump already, or neither has and the two
  walks are in the same state.
\<close>

definition sin_bomba_aun :: "estado \<Rightarrow> estado \<Rightarrow> bool" where
  "sin_bomba_aun st1 st2 =
     (case (st1, st2) of ((x1, h1, b1), (x2, h2, b2)) \<Rightarrow>
        0 < length b2 \<or> (x1 = x2 \<and> h1 = h2 \<and> b1 = [] \<and> b2 = []))"

section \<open>Terrain interpolation\<close>

lemma divmod_block:
  "i < n \<Longrightarrow> (i + m * n) div n = m \<and> (i + m * n) mod n = (i::nat)"
  by simp

lemma upt_block: "[0..<Suc m * n] = [0..<m * n] @ [m * n..<m * n + n]"
proof -
  have "Suc m * n = m * n + n" by simp
  then show ?thesis by (simp only: upt_add_eq_append[OF le0])
qed

lemma linspace_nonneg:
  "0 \<le> k \<Longrightarrow> linspace a b (k + 2) = Inr (tramos a b (nat k))"
  by (auto simp: linspace_def nat_add_distrib tramo_def tramos_def)

lemma tramos_split:
  "tramos a b K = map (tramo a b K) [0..<K + 1] @ [b]"
proof -
  have "[0..<K + 2] = [0..<K + 1] @ [K + 1]" by simp
  moreover have "tramo a b K (K + 1) = b" by (simp add: tramo_def)
  ultimately show ?thesis by (simp del: upt_Suc add: tramos_def)
qed

lemma tramos_drop:
  "a # drop 1 (tramos a b K) = tramos a b K"
proof -
  have "[0..<K + 2] = 0 # [1..<K + 2]" by (simp add: upt_rec)
  moreover have "tramo a b K 0 = a" by (simp add: tramo_def)
  ultimately show ?thesis unfolding tramos_def by (simp only: list.map drop_Suc_Cons drop_0 One_nat_def)
qed

lemma muestra_block:
  "map (spec_muestra x K) [m * (K + 1)..<m * (K + 1) + (K + 1)] = map (tramo (x ! m) (x ! (m + 1)) K) [0..<K + 1]"
proof -
  have "[m * (K + 1)..<m * (K + 1) + (K + 1)] = map (\<lambda>i. i + m * (K + 1)) [0..<K + 1]"
    by (simp only: map_add_upt add.commute)
  moreover have "spec_muestra x K (i + m * (K + 1)) = tramo (x ! m) (x ! (m + 1)) K i" if "i < K + 1" for i
    using divmod_block[OF that, of m] by (simp only: spec_muestra_def tramo_def Let_def)
  ultimately show ?thesis by (simp del: upt_Suc mult_Suc_right add: comp_def)
qed

lemma puntos_Suc:
  "puntos x K (Suc m) =
     puntos x K m @ (if 0 < m then drop 1 (tramos (x ! m) (x ! (m + 1)) K) else tramos (x ! m) (x ! (m + 1)) K)"
proof -
  have "puntos x K (Suc m) = map (spec_muestra x K) [0..<m * (K + 1)] @ tramos (x ! m) (x ! (m + 1)) K"
    unfolding puntos_def upt_block tramos_split using muestra_block[of x K m] 
    by (simp del: upt_Suc mult_Suc_right mult_Suc)
  moreover have "[x ! m] @ drop 1 (tramos (x ! m) (x ! (m + 1)) K) = tramos (x ! m) (x ! (m + 1)) K"
    using tramos_drop[of "x ! m" "x ! (m + 1)" K] by simp
  ultimately show ?thesis
    by (cases "m = 0") (simp_all add: puntos_def del: upt_Suc mult_Suc_right mult_Suc)
qed

lemma puntos_0: "puntos x K 0 = []"
  by (simp add: puntos_def)

lemma interpolar_paso_Inr:
  "0 \<le> k \<Longrightarrow> interpolar_paso x z k i (Inr (a, b)) =
     Inr (a @ (if 0 < i then drop 1 (tramos (x ! i) (x ! (i + 1)) (nat k)) else tramos (x ! i) (x ! (i + 1)) (nat k)),
          b @ (if 0 < i then drop 1 (tramos (z ! i) (z ! (i + 1)) (nat k)) else tramos (z ! i) (z ! (i + 1)) (nat k)))"
  by (simp add: interpolar_paso_def linspace_nonneg)

lemma interpolar_fold:
  assumes "0 \<le> k"
  shows "fold (interpolar_paso x z k) [0..<m] (Inr ([], [])) = Inr (puntos x (nat k) m, puntos z (nat k) m)"
proof (induction m)
  case 0
  show ?case by (simp add: puntos_0)
next
  case (Suc m)
  show ?case
    using Suc.IH assms
    by (simp add: interpolar_paso_Inr puntos_Suc)
qed

lemma length_puntos: "0 < m \<Longrightarrow> length (puntos x K m) = m * (K + 1) + 1"
  by (simp add: puntos_def)

lemma nth_puntos: "j < m * (K + 1) \<Longrightarrow> puntos x K m ! j = spec_muestra x K j"
  by (auto simp: puntos_def nth_append simp del: mult_Suc_right)

lemma last_puntos: "0 < m \<Longrightarrow> last (puntos x K m) = x ! m"
  by (simp add: puntos_def)

lemma hd_puntos: "0 < m \<Longrightarrow> hd (puntos x K m) = x ! 0"
proof -
  assume "0 < m"
  then have "0 < m * (K + 1)" by simp
  then have "puntos x K m ! 0 = spec_muestra x K 0" by (rule nth_puntos)
  moreover have "puntos x K m \<noteq> []" using \<open>0 < m\<close> by (simp add: puntos_def)
  ultimately show ?thesis by (simp add: hd_conv_nth spec_muestra_def)
qed

lemma tramo_mono: "a \<le> b \<Longrightarrow> i \<le> j \<Longrightarrow> tramo a b K i \<le> tramo a b K j"
  unfolding tramo_def by (intro add_left_mono mult_right_mono divide_nonneg_pos) auto

lemma sorted_map_upt:
  fixes f :: "nat \<Rightarrow> real"
  assumes "\<And>i j. i \<le> j \<Longrightarrow> f i \<le> f j"
  shows "sorted (map f [0..<n])"
  by (induction n) (auto simp: sorted_append assms)

lemma sorted_tramos: "a \<le> b \<Longrightarrow> sorted (tramos a b K)"
  unfolding tramos_def by (rule sorted_map_upt) (rule tramo_mono)

lemma tramo_ge: "a \<le> b \<Longrightarrow> a \<le> tramo a b K i"
  using tramo_mono[of a b 0 i K] by (simp add: tramo_def)

lemma sorted_le_last: "sorted xs \<Longrightarrow> u \<in> set xs \<Longrightarrow> u \<le> last (xs :: real list)"
  by (induction xs) auto

lemma sorted_puntos:
  assumes "sorted x" "m < length x"
  shows "sorted (puntos x K m)"
  using assms(2)
proof (induction m)
  case 0
  show ?case by (simp add: puntos_0)
next
  case (Suc m)
  have le: "x ! m \<le> x ! (m + 1)"
    using assms(1) Suc.prems by (simp add: sorted_iff_nth_mono)
  show ?case
  proof (cases "m = 0")
    case True
    then show ?thesis using sorted_tramos[OF le, of K] by (simp add: puntos_Suc puntos_0)
  next
    case False
    then have pos: "0 < m" by simp
    have s1: "sorted (puntos x K m)" using Suc by simp
    have s2: "sorted (drop 1 (tramos (x ! m) (x ! (m + 1)) K))"
      using sorted_tramos[OF le, of K] by (rule sorted_wrt_drop)
    have b1: "u \<le> x ! m" if "u \<in> set (puntos x K m)" for u
      using sorted_le_last[OF s1 that] last_puntos[OF pos, of x K] by simp
    have b2: "x ! m \<le> w" if "w \<in> set (drop 1 (tramos (x ! m) (x ! (m + 1)) K))" for w
    proof -
      from that have "w \<in> set (tramos (x ! m) (x ! (m + 1)) K)"
        by (rule in_set_dropD)
      then show ?thesis using tramo_ge[OF le] by (auto simp: tramos_def)
    qed
    have "\<forall>u\<in>set (puntos x K m). \<forall>w\<in>set (drop 1 (tramos (x ! m) (x ! (m + 1)) K)). u \<le> w"
      using b1 b2 by force
    then show ?thesis
      using pos s1 s2 by (simp only: puntos_Suc sorted_append if_True)
  qed
qed

text \<open>
  Claim C9, as the code has it. For a terrain of \<open>n \<ge> 2\<close> points and \<open>k \<ge> 0\<close> extra
  points per segment, \<open>interpolar_perfil\<close> returns \<open>(n - 1) * (k + 1) + 1\<close> points: the
  \<open>k + 2\<close> evenly spaced samples of each segment with the shared end point between
  adjacent segments kept once. The first and last points are those of the input, an
  ordered input gives an ordered output, and the output is strictly longer than the
  input exactly when \<open>k \<ge> 1\<close>.
\<close>

theorem interpolar_perfil_puntos:
  assumes "2 \<le> length df" "0 \<le> k"
  shows "\<exists>xi zi. interpolar_perfil df k = Inr (xi, zi)
           \<and> length xi = (length df - 1) * (nat k + 1) + 1 \<and> length zi = length xi
           \<and> (\<forall>j < (length df - 1) * (nat k + 1).
                 xi ! j = spec_muestra (map fst df) (nat k) j \<and> zi ! j = spec_muestra (map snd df) (nat k) j)
           \<and> hd xi = fst (hd df) \<and> hd zi = snd (hd df)
           \<and> last xi = fst (last df) \<and> last zi = snd (last df)
           \<and> (sorted (map fst df) \<longrightarrow> sorted xi)
           \<and> (length df < length xi \<longleftrightarrow> 1 \<le> k)"
proof -
  define m where "m = length df - 1"
  define K where "K = nat k"
  have pos: "0 < m" and ne: "df \<noteq> []" and m_lt: "m < length df"
    using assms(1) by (auto simp: m_def)
  have run: "interpolar_perfil df k = Inr (puntos (map fst df) K m, puntos (map snd df) K m)"
    using interpolar_fold[OF assms(2)] by (simp add: interpolar_perfil_def Let_def m_def K_def)
  have lens: "length (puntos (map fst df) K m) = m * (K + 1) + 1"
    "length (puntos (map snd df) K m) = m * (K + 1) + 1"
    using pos by (simp_all only: length_puntos)
  have nths: "\<forall>j < m * (K + 1). puntos (map fst df) K m ! j = spec_muestra (map fst df) K j
                \<and> puntos (map snd df) K m ! j = spec_muestra (map snd df) K j"
    by (simp add: nth_puntos)
  have hds: "hd (puntos (map fst df) K m) = fst (hd df)" "hd (puntos (map snd df) K m) = snd (hd df)"
    using pos ne by (simp_all add: hd_puntos hd_conv_nth)
  have lasts: "last (puntos (map fst df) K m) = fst (last df)"
    "last (puntos (map snd df) K m) = snd (last df)"
    using pos ne m_lt by (simp_all add: last_puntos last_conv_nth m_def)
  have srt: "sorted (map fst df) \<longrightarrow> sorted (puntos (map fst df) K m)"
    using sorted_puntos[of "map fst df" m K] m_lt by simp
  have "m + 1 < m * (K + 1) + 1 \<longleftrightarrow> 1 \<le> K"
    using pos by (cases K) auto
  moreover have "1 \<le> K \<longleftrightarrow> 1 \<le> k"
    using assms(2) by (auto simp: K_def)
  moreover have "length df = m + 1"
    using assms(1) by (simp add: m_def)
  ultimately have longer: "length df < length (puntos (map fst df) K m) \<longleftrightarrow> 1 \<le> k"
    using lens(1) by (simp only:)
  show ?thesis
    unfolding run m_def[symmetric] K_def[symmetric]
    apply (rule exI[of _ "puntos (map fst df) K m"])
    apply (rule exI[of _ "puntos (map snd df) K m"])
    using lens nths hds lasts srt longer by simp
qed

text \<open>
  With no extra points the polyline is returned as it is, so it is not strictly longer
  than the input.
\<close>

theorem interpolar_perfil_sin_puntos_extra:
  "interpolar_perfil [(0, 0), (1, 1)] 0 = Inr ([0, 1], [0, 1])
   \<and> \<not> length [(0::real, 0::real), (1, 1)] < length [0::real, 1]"
  by (simp add: interpolar_perfil_def interpolar_paso_def linspace_def numeral_2_eq_2 Let_def)

text \<open>The theorem at a terrain of three points with one extra point per segment.\<close>

theorem interpolar_perfil_puntos_witness:
  "2 \<le> length [(0::real, 0::real), (2, 4), (6, 0)] \<and> (0::int) \<le> 1
   \<and> sorted (map fst [(0::real, 0::real), (2, 4), (6, 0)])
   \<and> (\<exists>xi zi. interpolar_perfil [(0, 0), (2, 4), (6, 0)] 1 = Inr (xi, zi)
         \<and> length xi = 5 \<and> length zi = 5 \<and> xi ! 1 = 1 \<and> zi ! 3 = 2
         \<and> hd xi = 0 \<and> last xi = 6 \<and> sorted xi \<and> 3 < length xi)"
proof -
  let ?df = "[(0::real, 0::real), (2, 4), (6, 0)]"
  have h: "2 \<le> length ?df" "(0::int) \<le> 1" "sorted (map fst ?df)" by simp_all
  from interpolar_perfil_puntos[OF h(1) h(2)] obtain xi zi where
    r: "interpolar_perfil ?df 1 = Inr (xi, zi)"
    and l: "length xi = (length ?df - 1) * (nat 1 + 1) + 1" "length zi = length xi"
    and n: "\<forall>j < (length ?df - 1) * (nat 1 + 1).
              xi ! j = spec_muestra (map fst ?df) (nat 1) j \<and> zi ! j = spec_muestra (map snd ?df) (nat 1) j"
    and e: "hd xi = fst (hd ?df)" "last xi = fst (last ?df)"
    and s: "sorted (map fst ?df) \<longrightarrow> sorted xi"
    and g: "length ?df < length xi \<longleftrightarrow> (1::int) \<le> 1"
    by blast
  have "spec_muestra (map fst ?df) (nat 1) 1 = 1" "spec_muestra (map snd ?df) (nat 1) 3 = 2"
    by (simp_all add: spec_muestra_def Let_def numeral_2_eq_2[symmetric])
  then have "xi ! 1 = 1" "zi ! 3 = 2"
    using n[rule_format, of 1] n[rule_format, of 3] by simp_all
  then show ?thesis
    using h r l e s g by simp
qed

section \<open>Forward generator with automatic pumps\<close>

lemma automaticas_paso_simp:
  "automaticas_paso x z f D v altura_seguridad head_bomba i (x_final, h_final, bombas) =
     (let h_nueva = last h_final - perdida f D v (x ! i - x ! (i - 1)) (z ! i - z ! (i - 1))
      in if h_nueva - z ! i \<le> altura_seguridad
         then (x_final @ [x ! i, x ! i], h_final @ [h_nueva, h_nueva + head_bomba],
               bombas @ [\<lparr>bomba_x = x ! i, bomba_head = Some head_bomba\<rparr>])
         else (x_final @ [x ! i], h_final @ [h_nueva], bombas))"
  by (simp add: automaticas_paso_def Let_def list_update_append)

lemma automaticas_paso_inicio:
  assumes "inicio_ok st0 st"
  shows "inicio_ok st0 (automaticas_paso x z f D v m H i st)"
proof -
  obtain x1 h1 b1 where st: "st = (x1, h1, b1)" by (cases st) auto
  obtain x0 h0 b0 where st0: "st0 = (x0, h0, b0)" by (cases st0) auto
  have "2 \<le> length x1" "2 \<le> length h1"
    using assms unfolding inicio_ok_def st st0
    by (auto dest: arg_cong[where f = length])
  then show ?thesis
    using assms unfolding inicio_ok_def st st0
    by (simp add: automaticas_paso_simp Let_def)
qed

lemma fold_automaticas_inicio:
  "inicio_ok st0 st \<Longrightarrow> inicio_ok st0 (fold (automaticas_paso x z f D v m H) is st)"
  by (induction "is" arbitrary: st) (simp_all add: automaticas_paso_inicio)

lemma interpolar_perfil_eq:
  assumes "0 \<le> k"
  shows "interpolar_perfil df k =
           Inr (puntos (map fst df) (nat k) (length df - 1), puntos (map snd df) (nat k) (length df - 1))"
  using interpolar_fold[OF assms] by (simp add: interpolar_perfil_def Let_def)

lemma factor_Inr_diametro:
  "factor_del_sistema fl tb = Inr f \<Longrightarrow> diametro tb \<noteq> 0"
  by (auto simp: factor_del_sistema_def reynolds_def factor_friccion_def split: if_splits sum.splits)

lemma inicio_ok_refl:
  "inicio_ok (automaticas_inicio x z p m H) (automaticas_inicio x z p m H)"
  by (simp add: inicio_ok_def automaticas_inicio_def Let_def)

lemma take2_nth:
  assumes "take 2 xs = take 2 ys" "2 \<le> length ys"
  shows "xs ! 0 = ys ! 0" "xs ! 1 = ys ! 1" "2 \<le> length xs"
proof -
  have "length (take 2 xs) = length (take 2 ys)" using assms(1) by simp
  then show "2 \<le> length xs" using assms(2) by simp
  have "take 2 xs ! 0 = take 2 ys ! 0" "take 2 xs ! 1 = take 2 ys ! 1" using assms(1) by simp_all
  then show "xs ! 0 = ys ! 0" "xs ! 1 = ys ! 1" by simp_all
qed

lemma automaticas_bucle_inicio:
  assumes "fold (automaticas_paso x z f D v m H) is (automaticas_inicio x z p m H) = (x_final, h_final, bombas)"
  shows "2 \<le> length x_final \<and> 2 \<le> length h_final \<and> x_final ! 0 = x ! 0 \<and> x_final ! 1 = x ! 0
         \<and> h_final ! 0 = p + z ! 0
         \<and> h_final ! 1 = (if p + z ! 0 - z ! 0 \<le> m then h_final ! 0 + H else h_final ! 0)"
proof -
  obtain x0 h0 b0 where i: "automaticas_inicio x z p m H = (x0, h0, b0)"
    by (cases "automaticas_inicio x z p m H") auto
  have "inicio_ok (automaticas_inicio x z p m H)
          (fold (automaticas_paso x z f D v m H) is (automaticas_inicio x z p m H))"
    by (rule fold_automaticas_inicio) (rule inicio_ok_refl)
  then have "inicio_ok (x0, h0, b0) (x_final, h_final, bombas)"
    using assms i by simp
  then have t: "take 2 x_final = take 2 x0" "take 2 h_final = take 2 h0" "2 \<le> length x0" "2 \<le> length h0"
    by (simp_all add: inicio_ok_def)
  have v: "x0 ! 0 = x ! 0" "x0 ! 1 = x ! 0" "h0 ! 0 = p + z ! 0"
    "h0 ! 1 = (if p + z ! 0 - z ! 0 \<le> m then h0 ! 0 + H else h0 ! 0)"
    using i by (auto simp: automaticas_inicio_def Let_def split: if_splits)
  show ?thesis
    using take2_nth[OF t(1) t(3)] take2_nth[OF t(2) t(4)] v by simp
qed

text \<open>
  Claim C10. For a terrain of at least two points (read as it is, or densified with
  \<open>k \<ge> 0\<close> extra points), the forward generator either stops at the error of the
  friction factor or returns a profile whose first two samples both lie at the
  terrain's first distance; the first head is \<open>presion_inicial_m + z[0]\<close> and the second
  is the same head when the start margin is not violated and that head plus
  \<open>head_bomba\<close> when it is.
\<close>

theorem automaticas_dos_primeros:
  assumes "2 \<le> length df" "case num_puntos_extra of None \<Rightarrow> True | Some k \<Rightarrow> 0 \<le> k"
  shows "(\<exists>e. factor_del_sistema fl tb = Inl e
            \<and> generar_perfil_con_bombas_automaticas df fl tb presion_inicial_m altura_seguridad
                 head_bomba num_puntos_extra = Inl e)
       \<or> (\<exists>x_final h_final bombas.
            generar_perfil_con_bombas_automaticas df fl tb presion_inicial_m altura_seguridad
              head_bomba num_puntos_extra = Inr (x_final, h_final, bombas)
            \<and> 2 \<le> length x_final \<and> 2 \<le> length h_final
            \<and> x_final ! 0 = fst (df ! 0) \<and> x_final ! 1 = fst (df ! 0)
            \<and> h_final ! 0 = presion_inicial_m + snd (df ! 0)
            \<and> h_final ! 1 =
                (if presion_inicial_m + snd (df ! 0) - snd (df ! 0) \<le> altura_seguridad
                 then h_final ! 0 + head_bomba else h_final ! 0))"
proof (cases "factor_del_sistema fl tb")
  case (Inl e)
  have "\<exists>x z. (case num_puntos_extra of None \<Rightarrow> Inr (map fst df, map snd df) | Some k \<Rightarrow> interpolar_perfil df k) = Inr (x, z)"
    using assms(2) by (cases num_puntos_extra) (simp_all add: interpolar_perfil_eq)
  then show ?thesis
    using Inl by (auto simp: generar_perfil_con_bombas_automaticas_def)
next
  case (Inr f)
  define m where "m = length df - 1"
  have pos: "0 < m" and ne: "df \<noteq> []" using assms(1) by (auto simp: m_def)
  obtain x z where xz: "(case num_puntos_extra of None \<Rightarrow> Inr (map fst df, map snd df)
                          | Some k \<Rightarrow> interpolar_perfil df k) = Inr (x, z)"
    and x0: "x \<noteq> []" "x ! 0 = fst (df ! 0)" "z ! 0 = snd (df ! 0)"
  proof (cases num_puntos_extra)
    case None
    show ?thesis
      by (rule that[of "map fst df" "map snd df"]) (use None ne in \<open>simp_all add: nth_map\<close>)
  next
    case (Some k)
    then have k: "0 \<le> k" using assms(2) by simp
    have l: "puntos (map fst df) (nat k) m \<noteq> []"
      using length_puntos[OF pos, of "map fst df" "nat k"] by auto
    have h: "hd (puntos (map fst df) (nat k) m) = fst (df ! 0)" "hd (puntos (map snd df) (nat k) m) = snd (df ! 0)"
      using hd_puntos[OF pos] ne by (simp_all add: nth_map)
    have l2: "puntos (map snd df) (nat k) m \<noteq> []"
      using length_puntos[OF pos, of "map snd df" "nat k"] by auto
    show ?thesis
      by (rule that[of "puntos (map fst df) (nat k) m" "puntos (map snd df) (nat k) m"])
        (use Some k l l2 h in \<open>simp_all add: interpolar_perfil_eq m_def hd_conv_nth\<close>)
  qed
  obtain x_final h_final bombas where
    r: "fold (automaticas_paso x z f (diametro tb) (velocidad fl) altura_seguridad head_bomba) [1..<length x]
          (automaticas_inicio x z presion_inicial_m altura_seguridad head_bomba) = (x_final, h_final, bombas)"
    using prod_cases3 by blast
  have g: "generar_perfil_con_bombas_automaticas df fl tb presion_inicial_m altura_seguridad
             head_bomba num_puntos_extra = Inr (x_final, h_final, bombas)"
    using Inr xz x0(1) r factor_Inr_diametro[OF Inr]
    by (simp add: generar_perfil_con_bombas_automaticas_def)
  show ?thesis
    using automaticas_bucle_inicio[OF r] g x0 by simp
qed

text \<open>The theorem on a two-point terrain in laminar flow, the margin violated at the start.\<close>

theorem automaticas_dos_primeros_witness:
  "2 \<le> length [(0::real, 0::real), (10, 0)]
   \<and> (\<exists>x_final h_final bombas.
         generar_perfil_con_bombas_automaticas [(0, 0), (10, 0)]
           \<lparr>densidad = 1, viscosidad = 1, velocidad = 1\<rparr> \<lparr>diametro = 1, rugosidad = None\<rparr>
           3 5 50 None = Inr (x_final, h_final, bombas)
         \<and> x_final ! 0 = 0 \<and> x_final ! 1 = 0 \<and> h_final ! 0 = 3 \<and> h_final ! 1 = 53)"
  using automaticas_dos_primeros[of "[(0, 0), (10, 0)]" None
          "\<lparr>densidad = 1, viscosidad = 1, velocidad = 1\<rparr>" "\<lparr>diametro = 1, rugosidad = None\<rparr>" 3 5 50]
  by (auto simp: factor_del_sistema_def reynolds_def factor_friccion_def)





lemma perdida_horizontal: "perdida f D v dx 0 = f * (\<bar>dx\<bar> / D) * v ^ 2 / (2 * G)"
  by (simp add: perdida_def)





section \<open>Friction factor\<close>

lemma colebrook_paso_pos:
  assumes "0 < Reyn" "0 < D" "0 \<le> epsilon" "0 < f"
  shows "colebrook_paso Reyn D epsilon f =
           (if polo Reyn D epsilon f then Inl ZeroDivisionError
            else Inr (spec_colebrook Reyn D epsilon f))"
    and "\<not> polo Reyn D epsilon f \<Longrightarrow> 0 < spec_colebrook Reyn D epsilon f"
proof -
  let ?a = "epsilon / (3.7 * D) + 2.51 / (Reyn * sqrt f)"
  have s: "0 < Reyn * sqrt f" using assms by simp
  then have "0 < 2.51 / (Reyn * sqrt f)" by simp
  moreover have "0 \<le> epsilon / (3.7 * D)" using assms by simp
  ultimately have a: "0 < ?a" by linarith
  have "log 10 ?a \<le> 0 \<longleftrightarrow> ?a \<le> 1" "0 \<le> log 10 ?a \<longleftrightarrow> 1 \<le> ?a"
    using a by simp_all
  then have l: "log 10 ?a = 0 \<longleftrightarrow> ?a = 1"
    by linarith
  show "colebrook_paso Reyn D epsilon f =
           (if polo Reyn D epsilon f then Inl ZeroDivisionError
            else Inr (spec_colebrook Reyn D epsilon f))"
    using assms s a l
    by (simp add: colebrook_paso_def polo_def spec_colebrook_def Let_def not_le[symmetric] del: not_le)
  show "0 < spec_colebrook Reyn D epsilon f" if "\<not> polo Reyn D epsilon f"
    using that l by (simp add: spec_colebrook_def polo_def)
qed

lemma iterado_0: "spec_iterado Reyn D epsilon f 0 = f"
  by (simp add: spec_iterado_def)

lemma iterado_Suc: "spec_iterado Reyn D epsilon f (Suc n) = spec_iterado Reyn D epsilon (spec_colebrook Reyn D epsilon f) n"
  by (simp add: spec_iterado_def funpow_swap1)

lemma find_map_Suc: "find P (map Suc xs) = map_option Suc (find (\<lambda>n. P (Suc n)) xs)"
  by (induction xs) auto

lemma parada_Suc:
  "spec_parada Reyn D epsilon tol (Suc n) f =
     (if \<bar>spec_colebrook Reyn D epsilon f - f\<bar> < tol then 1
      else Suc (spec_parada Reyn D epsilon tol n (spec_colebrook Reyn D epsilon f)))"
proof -
  let ?f' = "spec_colebrook Reyn D epsilon f"
  let ?P = "\<lambda>g n. \<bar>spec_iterado Reyn D epsilon g n - spec_iterado Reyn D epsilon g (n - 1)\<bar> < tol"
  have u: "[1..<Suc n + 1] = 1 # map Suc [1..<n + 1]"
    by (simp add: upt_conv_Cons map_Suc_upt del: upt_Suc)
  have sh: "find (\<lambda>j. ?P f (Suc j)) [1..<n + 1] = find (?P ?f') [1..<n + 1]"
  proof (rule find_cong[OF refl])
    fix j assume "j \<in> set [1..<n + 1]"
    then have "1 \<le> j" by (simp del: upt_Suc)
    then obtain i where "j = Suc i" by (cases j) simp_all
    then show "?P f (Suc j) = ?P ?f' j" by (simp add: iterado_Suc)
  qed
  have one: "?P f 1 \<longleftrightarrow> \<bar>?f' - f\<bar> < tol"
    using iterado_Suc[of Reyn D epsilon f 0] by (simp add: iterado_0)
  show ?thesis
    unfolding spec_parada_def u
    by (simp only: find.simps one find_map_Suc sh) (simp split: option.split)
qed

lemma parada_0: "spec_parada Reyn D epsilon tol 0 f = 0"
  by (simp add: spec_parada_def)

lemma colebrook_bucle_parada:
  assumes "0 < Reyn" "0 < D" "0 \<le> epsilon"
  shows "0 < f \<Longrightarrow>
         colebrook_bucle n Reyn D epsilon tol f =
           (if \<exists>j < spec_parada Reyn D epsilon tol n f. polo Reyn D epsilon (spec_iterado Reyn D epsilon f j)
            then Inl ZeroDivisionError
            else Inr (spec_iterado Reyn D epsilon f (spec_parada Reyn D epsilon tol n f)))"
proof (induction n arbitrary: f)
  case 0
  show ?case by (simp add: parada_0 iterado_0)
next
  case (Suc n)
  let ?f' = "spec_colebrook Reyn D epsilon f"
  note paso = colebrook_paso_pos[OF assms Suc.prems]
  show ?case
  proof (cases "polo Reyn D epsilon f")
    case True
    have "0 < spec_parada Reyn D epsilon tol (Suc n) f" by (simp add: parada_Suc)
    then have "\<exists>j < spec_parada Reyn D epsilon tol (Suc n) f. polo Reyn D epsilon (spec_iterado Reyn D epsilon f j)"
      using True iterado_0[of Reyn D epsilon f] by (intro exI[of _ 0]) simp
    then show ?thesis using True paso(1) by simp
  next
    case False
    then have pos: "0 < ?f'" by (rule paso(2))
    show ?thesis
    proof (cases "\<bar>?f' - f\<bar> < tol")
      case True
      then show ?thesis
        using False paso(1) iterado_Suc[of Reyn D epsilon f 0]
        by (simp add: parada_Suc iterado_0)
    next
      case nt: False
      have ex: "(\<exists>j < Suc p. polo Reyn D epsilon (spec_iterado Reyn D epsilon f j))
                \<longleftrightarrow> (\<exists>j < p. polo Reyn D epsilon (spec_iterado Reyn D epsilon ?f' j))" for p
      proof
        assume "\<exists>j < Suc p. polo Reyn D epsilon (spec_iterado Reyn D epsilon f j)"
        then obtain j where j: "j < Suc p" "polo Reyn D epsilon (spec_iterado Reyn D epsilon f j)" by blast
        then obtain i where "j = Suc i" using False by (cases j) (auto simp: iterado_0)
        then show "\<exists>j < p. polo Reyn D epsilon (spec_iterado Reyn D epsilon ?f' j)"
          using j by (auto simp: iterado_Suc)
      next
        assume "\<exists>j < p. polo Reyn D epsilon (spec_iterado Reyn D epsilon ?f' j)"
        then obtain j where "j < p" "polo Reyn D epsilon (spec_iterado Reyn D epsilon ?f' j)" by blast
        then show "\<exists>j < Suc p. polo Reyn D epsilon (spec_iterado Reyn D epsilon f j)"
          by (intro exI[of _ "Suc j"]) (simp add: iterado_Suc)
      qed
      show ?thesis
        using False nt paso(1) Suc.IH[OF pos]
        by (simp only: colebrook_bucle.simps parada_Suc ex iterado_Suc if_False sum.case)
    qed
  qed
qed

text \<open>
  Claim C5. For \<open>reynolds > 0\<close>, \<open>diameter > 0\<close> and \<open>roughness \<ge> 0\<close> the friction
  factor is exactly \<open>64 / reynolds\<close> below 2000; from 2000 on it is the iterate of the
  Colebrook map, started at 0.02, at which the iteration stops (the first of at most 100
  iterates within \<open>1e-6\<close> of its predecessor, the 100th otherwise), returned without an
  error also when the budget is exhausted. The only error is the division by zero at a
  pole of the map, met before the iteration stops.
\<close>

theorem factor_friccion_colebrook:
  assumes "0 < Reyn" "0 < D" "0 \<le> epsilon"
  shows "factor_friccion Reyn D epsilon =
           (if Reyn < 2000 then Inr (64 / Reyn)
            else if \<exists>j < spec_parada Reyn D epsilon (1 / 10 ^ 6) 100 0.02.
                      polo Reyn D epsilon (spec_iterado Reyn D epsilon 0.02 j)
                 then Inl ZeroDivisionError
                 else Inr (spec_iterado Reyn D epsilon 0.02 (spec_parada Reyn D epsilon (1 / 10 ^ 6) 100 0.02)))"
proof (cases "Reyn < 2000")
  case True
  then show ?thesis using assms(1) by (simp add: factor_friccion_def)
next
  case False
  have "(0::real) < 0.02" by simp
  from colebrook_bucle_parada[OF assms this] False show ?thesis
    by (simp only: factor_friccion_def colebrook_def colebrook_tol_def if_False)
qed

text \<open>The theorem in laminar flow (\<open>Re = 1000\<close>) and in turbulent flow (\<open>Re = 100000\<close>).\<close>

theorem factor_friccion_colebrook_witness:
  "(0::real) < 1000 \<and> (0::real) < 100000 \<and> (0::real) < 1 / 10 \<and> (0::real) \<le> 2 / 10000
   \<and> factor_friccion 1000 (1 / 10) (2 / 10000) = Inr (8 / 125)
   \<and> factor_friccion 100000 (1 / 10) (2 / 10000) =
       (if \<exists>j < spec_parada 100000 (1 / 10) (2 / 10000) (1 / 10 ^ 6) 100 0.02.
             polo 100000 (1 / 10) (2 / 10000) (spec_iterado 100000 (1 / 10) (2 / 10000) 0.02 j)
        then Inl ZeroDivisionError
        else Inr (spec_iterado 100000 (1 / 10) (2 / 10000) 0.02
                    (spec_parada 100000 (1 / 10) (2 / 10000) (1 / 10 ^ 6) 100 0.02)))"
  using factor_friccion_colebrook[of 1000 "1 / 10" "2 / 10000"]
    factor_friccion_colebrook[of 100000 "1 / 10" "2 / 10000"]
  by simp

section \<open>Inserting a pump\<close>

lemma fold_sumar:
  "b \<le> length L \<Longrightarrow> a \<le> b \<Longrightarrow>
   fold (\<lambda>i h. h[i := h ! i + (c::real)]) [a..<b] L =
     take a L @ map (\<lambda>h. h + c) (take (b - a) (drop a L)) @ drop b L"
proof (induction b)
  case 0
  then show ?case by simp
next
  case (Suc b)
  show ?case
  proof (cases "a = Suc b")
    case True
    then show ?thesis by simp
  next
    case False
    then have ab: "a \<le> b" using Suc.prems by simp
    have bl: "b < length L" using Suc.prems by simp
    let ?M = "take a L @ map (\<lambda>h. h + c) (take (b - a) (drop a L)) @ drop b L"
    have IH: "fold (\<lambda>i h. h[i := h ! i + c]) [a..<b] L = ?M"
      using Suc.IH ab bl by simp
    have len: "length (take a L @ map (\<lambda>h. h + c) (take (b - a) (drop a L))) = b"
      using ab bl by simp
    have nth: "?M ! b = L ! b"
      using len bl by (metis append.assoc hd_drop_conv_nth nth_append_length hd_append2 drop_eq_Nil not_le
          Cons_nth_drop_Suc)
    have upd: "?M[b := L ! b + c] = take a L @ map (\<lambda>h. h + c) (take (b - a) (drop a L)) @ (L ! b + c) # drop (Suc b) L"
      using len bl
      by (metis append.assoc list_update_length Cons_nth_drop_Suc)
    have tk: "take (Suc b - a) (drop a L) = take (b - a) (drop a L) @ [L ! b]"
      using ab bl by (simp add: Suc_diff_le take_Suc_conv_app_nth)
    show ?thesis
      using ab IH nth upd tk by (simp add: upt_Suc_append del: upt_Suc)
  qed
qed

lemma sumar_head_eq:
  assumes "idx + 1 < length L"
  shows "sumar_head idx (Some c) L = Inr (take (idx + 1) L @ map (\<lambda>h. h + c) (drop (idx + 1) L))"
proof -
  let ?L1 = "L[idx + 1 := L ! (idx + 1) + c]"
  have "fold (\<lambda>i h. h[i := h ! i + c]) [idx + 2..<length L] ?L1
        = take (idx + 2) ?L1 @ map (\<lambda>h. h + c) (take (length L - (idx + 2)) (drop (idx + 2) ?L1)) @ drop (length L) ?L1"
    using fold_sumar[of "length L" ?L1 "idx + 2" c] assms by simp
  also have "\<dots> = take (idx + 1) L @ [L ! (idx + 1) + c] @ map (\<lambda>h. h + c) (drop (idx + 2) L)"
    using assms by (simp add: take_Suc_conv_app_nth)
  also have "\<dots> = take (idx + 1) L @ map (\<lambda>h. h + c) (drop (idx + 1) L)"
    using assms Cons_nth_drop_Suc[of "idx + 1" L] by (metis One_nat_def Suc_eq_plus1 add_2_eq_Suc' append_Cons append_Nil list.simps(9) add.commute)
  finally show ?thesis using assms by (simp add: sumar_head_def)
qed

lemma np_interp_valor:
  "xp \<noteq> [] \<Longrightarrow> length xp = length fp \<Longrightarrow> np_interp x xp fp = Inr (valor_interp x xp fp)"
  by (simp add: valor_interp_def np_interp_def Let_def)

lemma takeWhile_neq_less: "v \<in> set xs \<Longrightarrow> length (takeWhile (\<lambda>u. u \<noteq> v) xs) < length xs"
  by (induction xs) auto

lemma muestras_ordenadas_props:
  assumes "xs \<noteq> []" "length xs = length hs"
  shows "muestras_ordenadas xs hs x_b \<noteq> []"
    and "x_b \<in> set (map fst (muestras_ordenadas xs hs x_b))"
    and "idx_de (muestras_ordenadas xs hs x_b) x_b < length (muestras_ordenadas xs hs x_b)"
proof -
  let ?L = "if x_b \<in> set xs then zip xs hs else zip xs hs @ [(x_b, valor_interp x_b xs hs)]"
  have fs: "map fst ?L = (if x_b \<in> set xs then xs else xs @ [x_b])"
    using assms(2) by simp
  have "length (muestras_ordenadas xs hs x_b) = length ?L"
    by (simp add: muestras_ordenadas_def)
  then show ne: "muestras_ordenadas xs hs x_b \<noteq> []"
    using assms by (auto simp: Let_def split: if_splits)
  have "set (map fst (muestras_ordenadas xs hs x_b)) = set (map fst ?L)"
    by (simp add: muestras_ordenadas_def del: map_append)
  then show m: "x_b \<in> set (map fst (muestras_ordenadas xs hs x_b))"
    unfolding fs by simp
  have "length (takeWhile (\<lambda>u. u \<noteq> x_b) (map fst (muestras_ordenadas xs hs x_b)))
          < length (map fst (muestras_ordenadas xs hs x_b))"
    using m by (rule takeWhile_neq_less)
  then show "idx_de (muestras_ordenadas xs hs x_b) x_b < length (muestras_ordenadas xs hs x_b)"
    by (simp add: idx_de_def)
qed

lemma reordenar_eq:
  "xs \<noteq> [] \<Longrightarrow> length xs = length hs \<Longrightarrow>
   reordenar xs hs = Inr (map fst (sort (zip xs hs)), map snd (sort (zip xs hs)))"
  by (auto simp: reordenar_def Let_def dest!: arg_cong[where f = length])

lemma colocar_bomba_eq:
  assumes "xs \<noteq> []" "length xs = length hs"
  shows "colocar_bomba xs hs x_b (Some head) = Inr (con_bomba (muestras_ordenadas xs hs x_b) x_b head)"
proof -
  let ?S = "muestras_ordenadas xs hs x_b"
  let ?xs1 = "if x_b \<in> set xs then xs else xs @ [x_b]"
  let ?hs1 = "if x_b \<in> set xs then hs else hs @ [valor_interp x_b xs hs]"
  note P = muestras_ordenadas_props[OF assms, of x_b]
  have S: "?S = sort (zip ?xs1 ?hs1)"
    using assms(2) by (simp add: muestras_ordenadas_def)
  have l1: "?xs1 \<noteq> []" "length ?xs1 = length ?hs1" using assms by auto
  have st1: "(if x_b \<notin> set xs
            then (case np_interp x_b xs hs of
                    Inl e \<Rightarrow> Inl e
                  | Inr h_bomba \<Rightarrow> Inr (xs @ [x_b], hs @ [h_bomba]))
            else Inr (xs, hs)) = Inr (?xs1, ?hs1)"
    using np_interp_valor[OF assms, of x_b] by simp
  have st2: "reordenar ?xs1 ?hs1 = Inr (map fst ?S, map snd ?S)"
    using reordenar_eq[OF l1] S by simp
  have st3: "indice (map fst ?S) x_b = Inr (idx_de ?S x_b)"
    using P(2) by (simp add: indice_def idx_de_def)
  have st4: "(if idx_de ?S x_b > 0 then np_interp (x_b - 1 / 10 ^ 6) (map fst ?S) (map snd ?S)
              else Inr (map snd ?S ! idx_de ?S x_b)) = Inr (altura_antes ?S x_b)"
    using np_interp_valor[of "map fst ?S" "map snd ?S" "x_b - 1 / 10 ^ 6"] P(1)
    by (simp add: altura_antes_def)
  let ?I = "insertar (idx_de ?S x_b) (altura_antes ?S x_b) (map snd ?S)"
  have li: "idx_de ?S x_b + 1 < length ?I"
    using P(3) by (simp add: insertar_def)
  have tk: "take (idx_de ?S x_b + 1) ?I = take (idx_de ?S x_b) (map snd ?S) @ [altura_antes ?S x_b]"
    "drop (idx_de ?S x_b + 1) ?I = drop (idx_de ?S x_b) (map snd ?S)"
    using P(3) by (simp_all add: insertar_def min_def)
  have st5: "sumar_head (idx_de ?S x_b) (Some head) ?I =
      Inr (take (idx_de ?S x_b) (map snd ?S) @ altura_antes ?S x_b # map (\<lambda>h. h + head) (drop (idx_de ?S x_b) (map snd ?S)))"
    using sumar_head_eq[OF li, of head] tk by simp
  show ?thesis
    unfolding colocar_bomba_def st1 
    by (simp only: sum.case prod.case st2 st3 st4 st5) (simp add: con_bomba_def Let_def insertar_def)
qed

lemma idx_de_le: "idx_de S x_b \<le> length S"
  using length_takeWhile_le[of "\<lambda>u. u \<noteq> x_b" "map fst S"] by (simp add: idx_de_def)

lemma con_bomba_length:
  "length (fst (con_bomba S x_b head)) = length S + 1"
  "length (snd (con_bomba S x_b head)) = length S + 1"
  using idx_de_le[of S x_b] by (simp_all add: con_bomba_def Let_def)

lemma agregar_bomba_eq:
  assumes "xs \<noteq> []" "length xs = length hs"
  shows "agregar_bomba xs hs x_b head =
           Inr (fst (con_bomba (muestras_ordenadas xs hs x_b) x_b head),
                map (\<lambda>h. h + (last hs - last (snd (con_bomba (muestras_ordenadas xs hs x_b) x_b head))))
                  (snd (con_bomba (muestras_ordenadas xs hs x_b) x_b head)))"
proof -
  have "hs \<noteq> []" using assms by auto
  then show ?thesis
    using colocar_bomba_eq[OF assms, of x_b head]
    by (simp add: agregar_bomba_def Let_def split: prod.splits)
qed


section \<open>Backward generator with a known final head\<close>

lemma fold_append_last:
  fixes g :: "nat \<Rightarrow> real"
  assumes "\<And>i. 0 \<le> g i"
  shows "hs \<noteq> [] \<Longrightarrow> sorted hs \<Longrightarrow>
         sorted (fold (\<lambda>i h. h @ [last h + g i]) is hs)
         \<and> length (fold (\<lambda>i h. h @ [last h + g i]) is hs) = length hs + length is
         \<and> hd (fold (\<lambda>i h. h @ [last h + g i]) is hs) = hd hs"
proof (induction "is" arbitrary: hs)
  case Nil
  then show ?case by simp
next
  case (Cons i "is")
  have "sorted (hs @ [last hs + g i])"
    using Cons.prems assms[of i] sorted_le_last[of hs]
    by (fastforce simp: sorted_append)
  moreover have "hs @ [last hs + g i] \<noteq> []" by simp
  ultimately show ?case
    using Cons.IH[of "hs @ [last hs + g i]"] Cons.prems(1) by simp
qed

lemma G_pos: "0 < G"
  by (simp add: G_def)

lemma perdida_nonneg: "0 \<le> f \<Longrightarrow> 0 < D \<Longrightarrow> 0 \<le> perdida f D v dx dz"
  using G_pos by (simp add: perdida_def)

lemma perfil_reverso_props:
  assumes "0 \<le> f" "0 < D"
  shows "sorted (perfil_reverso x_rev z_rev f D v p)"
    and "length (perfil_reverso x_rev z_rev f D v p) = 1 + (length x_rev - 1)"
    and "hd (perfil_reverso x_rev z_rev f D v p) = p + z_rev ! 0"
  using fold_append_last[of "\<lambda>i. perdida f D v (x_rev ! (i - 1) - x_rev ! i) (z_rev ! (i - 1) - z_rev ! i)"
      "[p + z_rev ! 0]" "[1..<length x_rev]"] perdida_nonneg[OF assms]
  by (simp_all add: perfil_reverso_def Let_def)

lemma colebrook_paso_Inr_pos:
  "colebrook_paso Reyn D epsilon f = Inr y \<Longrightarrow> 0 < y"
  by (auto simp: colebrook_paso_def Let_def split: if_splits)

lemma colebrook_bucle_pos:
  "0 < f \<Longrightarrow> colebrook_bucle n Reyn D epsilon tol f = Inr y \<Longrightarrow> 0 < y"
proof (induction n arbitrary: f)
  case 0
  then show ?case by simp
next
  case (Suc n)
  then show ?case
    by (auto split: sum.splits if_splits dest: colebrook_paso_Inr_pos)
qed

lemma factor_friccion_pos:
  assumes "0 < Reyn" "factor_friccion Reyn D epsilon = Inr f"
  shows "0 < f"
proof (cases "Reyn < 2000")
  case True
  then have "f = 64 / Reyn" using assms by (simp add: factor_friccion_def)
  then show ?thesis using assms(1) by simp
next
  case False
  then have "colebrook_bucle 100 Reyn D epsilon (1 / 10 ^ 6) 0.02 = Inr f"
    using assms(2) by (simp add: factor_friccion_def colebrook_def colebrook_tol_def)
  moreover have "(0::real) < 0.02" by simp
  ultimately show ?thesis
    using colebrook_bucle_pos by blast
qed

lemma factor_del_sistema_pos:
  assumes "0 < densidad fl" "0 < viscosidad fl" "0 < velocidad fl" "0 < diametro tb"
    "factor_del_sistema fl tb = Inr f"
  shows "0 < f"
proof -
  define Reyn where "Reyn = densidad fl * velocidad fl * diametro tb / viscosidad fl"
  have Re: "0 < Reyn" using assms(1-4) by (simp add: Reyn_def)
  have f: "factor_friccion Reyn (diametro tb) (rugosidad_o_defecto tb) = Inr f"
    using assms(2,5) by (simp add: factor_del_sistema_def reynolds_def Reyn_def)
  show ?thesis by (rule factor_friccion_pos[OF Re f])
qed

lemma perfil_sin_bombas_Inl:
  "factor_del_sistema fl tb = Inl e \<Longrightarrow> perfil_sin_bombas df fl tb p = Inl e"
  by (simp add: perfil_sin_bombas_def)

lemma perfil_sin_bombas_Inr:
  assumes "df \<noteq> []" "factor_del_sistema fl tb = Inr f"
  shows "perfil_sin_bombas df fl tb p =
           Inr (map fst df,
                rev (perfil_reverso (rev (map fst df)) (rev (map snd df)) f (diametro tb) (velocidad fl) p))"
  using assms factor_Inr_diametro[OF assms(2)] by (simp add: perfil_sin_bombas_def Let_def)

lemma length_perfil_reverso:
  "length (perfil_reverso x_rev z_rev f D v p) = 1 + (length x_rev - 1)"
proof -
  have "length (fold (\<lambda>i h. h @ [last h + g i]) is hs) = length hs + length is"
    for g :: "nat \<Rightarrow> real" and "is" hs
    by (induction "is" arbitrary: hs) simp_all
  then show ?thesis by (simp add: perfil_reverso_def Let_def)
qed

text \<open>
  Claim C6. For a terrain of at least two points and positive density, viscosity,
  velocity and diameter, the backward generator
  with no pumps either stops at the error of the friction factor or returns one head per
  terrain point, and the heads never increase along the profile: each later head is at
  most each earlier one.
\<close>

theorem perfil_sin_bombas_no_creciente:
  assumes "2 \<le> length df" "0 < densidad fl" "0 < viscosidad fl" "0 < velocidad fl"
    "0 < diametro tb"
  shows "(\<exists>e. factor_del_sistema fl tb = Inl e
            \<and> generar_perfil_presion df fl tb presion_final_m [] = Inl e)
       \<or> (\<exists>x_final h_final.
            generar_perfil_presion df fl tb presion_final_m [] = Inr (x_final, h_final)
            \<and> x_final = map fst df \<and> length h_final = length df
            \<and> sorted_wrt (\<lambda>a b. b \<le> a) h_final)"
proof (cases "factor_del_sistema fl tb")
  case (Inl e)
  then show ?thesis
    by (simp add: generar_perfil_presion_def perfil_sin_bombas_Inl)
next
  case (Inr f)
  have ne: "df \<noteq> []" using assms(1) by auto
  have f: "0 \<le> f" using factor_del_sistema_pos[OF assms(2-5) Inr] by simp
  let ?H = "perfil_reverso (rev (map fst df)) (rev (map snd df)) f (diametro tb) (velocidad fl) presion_final_m"
  let ?d = "presion_final_m + last (map snd df) - last (rev ?H)"
  have g: "generar_perfil_presion df fl tb presion_final_m [] =
             Inr (map fst df, map (\<lambda>h. h + ?d) (rev ?H))"
    by (simp add: generar_perfil_presion_def perfil_sin_bombas_Inr[OF ne Inr] Let_def)
  have "sorted_wrt (\<lambda>a b. b \<le> a) (rev ?H)"
    using perfil_reverso_props(1)[OF f assms(5)] by (simp add: sorted_wrt_rev)
  then have s: "sorted_wrt (\<lambda>a b. b \<le> a) (map (\<lambda>h. h + ?d) (rev ?H))"
    by (simp add: sorted_wrt_map)
  have l: "length (map (\<lambda>h. h + ?d) (rev ?H)) = length df"
    using ne by (simp add: length_perfil_reverso)
  show ?thesis
    unfolding g using s l by simp
qed

text \<open>The theorem on a flat three-point terrain in laminar flow.\<close>

theorem perfil_sin_bombas_no_creciente_witness:
  "2 \<le> length [(0::real, 0::real), (10, 0), (20, 0)]
   \<and> 0 < densidad \<lparr>densidad = 1, viscosidad = 1, velocidad = 1\<rparr>
   \<and> 0 < viscosidad \<lparr>densidad = 1, viscosidad = 1, velocidad = 1\<rparr>
   \<and> 0 < velocidad \<lparr>densidad = 1, viscosidad = 1, velocidad = 1\<rparr>
   \<and> 0 < diametro \<lparr>diametro = 1, rugosidad = None\<rparr>
   \<and> (\<exists>x_final h_final.
         generar_perfil_presion [(0, 0), (10, 0), (20, 0)]
           \<lparr>densidad = 1, viscosidad = 1, velocidad = 1\<rparr> \<lparr>diametro = 1, rugosidad = None\<rparr> 5 [] =
           Inr (x_final, h_final)
         \<and> x_final = [0, 10, 20] \<and> length h_final = 3 \<and> sorted_wrt (\<lambda>a b. b \<le> a) h_final)"
  using perfil_sin_bombas_no_creciente[of "[(0, 0), (10, 0), (20, 0)]"
          "\<lparr>densidad = 1, viscosidad = 1, velocidad = 1\<rparr>" "\<lparr>diametro = 1, rugosidad = None\<rparr>" 5]
  by (auto simp: factor_del_sistema_def reynolds_def factor_friccion_def)



section \<open>What an insertion does to the samples before and after the pump\<close>

lemma sorted_map_fst:
  fixes S :: "(real \<times> real) list"
  shows "sorted S \<Longrightarrow> sorted (map fst S)"
  unfolding sorted_map by (erule sorted_wrt_mono_rel[rotated]) auto

lemma sorted_muestras: "sorted (muestras_ordenadas xs hs x_b)"
  by (simp add: muestras_ordenadas_def)

lemma primera_aparicion:
  fixes ys :: "real list"
  assumes "sorted ys" "v \<in> set ys"
  shows "\<forall>u \<in> set (takeWhile (\<lambda>u. u \<noteq> v) ys). u < v"
    and "\<forall>u \<in> set (dropWhile (\<lambda>u. u \<noteq> v) ys). v \<le> u"
    and "hd (dropWhile (\<lambda>u. u \<noteq> v) ys) = v"
  using assms
proof (induction ys)
  case Nil
  {
    case 1 then show ?case by simp
  next
    case 2 then show ?case by simp
  next
    case 3 then show ?case by simp
  }
next
  case (Cons a ys)
  {
    case 1
    then show ?case using Cons.IH(1) by (cases "a = v") (auto simp: less_le)
  next
    case 2
    then show ?case using Cons.IH(2) by (cases "a = v") auto
  next
    case 3
    then show ?case using Cons.IH(3) by (cases "a = v") auto
  }
qed

lemma idx_de_split:
  fixes S :: "(real \<times> real) list"
  assumes "sorted (map fst S)" "x_b \<in> set (map fst S)"
  shows "\<forall>p \<in> set (take (idx_de S x_b) S). fst p < x_b"
    and "\<forall>p \<in> set (drop (idx_de S x_b) S). x_b \<le> fst p"
    and "fst (S ! idx_de S x_b) = x_b"
proof -
  let ?i = "idx_de S x_b"
  note F = primera_aparicion[OF assms]
  have tk: "map fst (take ?i S) = takeWhile (\<lambda>u. u \<noteq> x_b) (map fst S)"
    by (simp add: idx_de_def take_map[symmetric] takeWhile_eq_take[symmetric])
  have dr: "map fst (drop ?i S) = dropWhile (\<lambda>u. u \<noteq> x_b) (map fst S)"
    by (simp add: idx_de_def drop_map[symmetric] dropWhile_eq_drop[symmetric])
  have lt: "?i < length S"
    using takeWhile_neq_less[OF assms(2)] by (simp add: idx_de_def)
  have "hd (map fst (drop ?i S)) = fst (S ! ?i)"
    using lt by (simp add: hd_map hd_drop_conv_nth)
  then show "fst (S ! ?i) = x_b"
    using F(3) dr by simp
  show "\<forall>p \<in> set (take ?i S). fst p < x_b"
  proof
    fix p assume "p \<in> set (take ?i S)"
    then have "fst p \<in> set (map fst (take ?i S))" by simp
    then show "fst p < x_b" using F(1) tk by simp
  qed
  show "\<forall>p \<in> set (drop ?i S). x_b \<le> fst p"
  proof
    fix p assume "p \<in> set (drop ?i S)"
    then have "fst p \<in> set (map fst (drop ?i S))" by simp
    then show "x_b \<le> fst p" using F(2) dr by simp
  qed
qed

lemma zip_fst_snd_mas:
  "zip (map fst L) (map (\<lambda>h. h + c) (map snd L)) = map (\<lambda>(x, h). (x, h + (c::real))) L"
  by (induction L) auto

lemma zip_con_bomba:
  "zip (fst (con_bomba S x_b head)) (snd (con_bomba S x_b head)) =
     take (idx_de S x_b) S @ (x_b, altura_antes S x_b)
       # map (\<lambda>(x, h). (x, h + head)) (drop (idx_de S x_b) S)"
proof -
  let ?i = "idx_de S x_b"
  have a: "zip (take ?i (map fst S)) (take ?i (map snd S)) = take ?i S"
    by (simp add: take_zip[symmetric] zip_map_fst_snd)
  have b: "zip (drop ?i (map fst S)) (map (\<lambda>h. h + head) (drop ?i (map snd S)))
           = map (\<lambda>(x, h). (x, h + head)) (drop ?i S)"
    using zip_fst_snd_mas[of "drop ?i S" head] by (simp only: drop_map)
  have l: "length (take ?i (map fst S)) = length (take ?i (map snd S))" by simp
  show ?thesis
    unfolding con_bomba_def Let_def fst_conv snd_conv
    by (simp only: zip_append[OF l] zip_Cons_Cons a b)
qed

lemma filter_map_mas:
  "filter (\<lambda>(x, h). P x) (map (\<lambda>(x, h). (x, h + (c::real))) L)
     = map (\<lambda>(x, h). (x, h + c)) (filter (\<lambda>(x, h). P x) L)"
  by (induction L) auto

lemma filter_con_bomba:
  fixes S :: "(real \<times> real) list"
  assumes "sorted (map fst S)" "x_b \<in> set (map fst S)"
  shows "filter (\<lambda>(x, h). x < x_b) (zip (fst (con_bomba S x_b head)) (snd (con_bomba S x_b head)))
           = filter (\<lambda>(x, h). x < x_b) S"
    and "filter (\<lambda>(x, h). x_b < x) (zip (fst (con_bomba S x_b head)) (snd (con_bomba S x_b head)))
           = map (\<lambda>(x, h). (x, h + head)) (filter (\<lambda>(x, h). x_b < x) S)"
proof -
  let ?i = "idx_de S x_b"
  note P = idx_de_split[OF assms]
  have t1: "filter (\<lambda>(x, h). x < x_b) (take ?i S) = take ?i S"
    using P(1) by (intro filter_True) auto
  have t2: "filter (\<lambda>(x, h). x_b < x) (take ?i S) = []"
    using P(1) by (intro filter_False) (auto simp: not_less less_imp_le)
  have d1: "filter (\<lambda>(x, h). x < x_b) (drop ?i S) = []"
    using P(2) by (intro filter_False) (auto simp: not_less)
  have f1: "filter (\<lambda>(x, h). x < x_b) S = take ?i S"
  proof -
    have "filter (\<lambda>(x, h). x < x_b) (take ?i S @ drop ?i S) = take ?i S"
      by (simp only: filter_append t1 d1 append_Nil2)
    then show ?thesis by simp
  qed
  have f2: "filter (\<lambda>(x, h). x_b < x) S = filter (\<lambda>(x, h). x_b < x) (drop ?i S)"
  proof -
    have "filter (\<lambda>(x, h). x_b < x) (take ?i S @ drop ?i S) = filter (\<lambda>(x, h). x_b < x) (drop ?i S)"
      by (simp only: filter_append t2 append_Nil)
    then show ?thesis by simp
  qed
  show "filter (\<lambda>(x, h). x < x_b) (zip (fst (con_bomba S x_b head)) (snd (con_bomba S x_b head)))
           = filter (\<lambda>(x, h). x < x_b) S"
    unfolding zip_con_bomba f1
    by (simp only: filter_append filter.simps t1 filter_map_mas[where P = "\<lambda>x. x < x_b"] d1)
       simp
  show "filter (\<lambda>(x, h). x_b < x) (zip (fst (con_bomba S x_b head)) (snd (con_bomba S x_b head)))
           = map (\<lambda>(x, h). (x, h + head)) (filter (\<lambda>(x, h). x_b < x) S)"
    unfolding zip_con_bomba f2
    by (simp only: filter_append filter.simps t2 filter_map_mas[where P = "\<lambda>x. x_b < x"])
       simp
qed

lemma filter_muestras:
  assumes "length xs = length hs"
  shows "filter (\<lambda>(x, h). x < x_b) (muestras_ordenadas xs hs x_b) = filter (\<lambda>(x, h). x < x_b) (sort (zip xs hs))"
    and "filter (\<lambda>(x, h). x_b < x) (muestras_ordenadas xs hs x_b) = filter (\<lambda>(x, h). x_b < x) (sort (zip xs hs))"
  by (simp_all add: muestras_ordenadas_def filter_sort)

lemmas bomba_eval = agregar_bomba_def colocar_bomba_def np_interp_def ultimo_indice_le_def
  reordenar_def indice_def insertar_def sumar_head_def Let_def

lemmas generador_eval = generar_perfil_presion_con_bomba_desconocida_def perfil_sin_bombas_def
  perfil_reverso_def factor_del_sistema_def reynolds_def factor_friccion_def perdida_horizontal G_def

lemma zip_map_mas:
  "length X = length H \<Longrightarrow> zip X (map (\<lambda>h. h + (c::real)) H) = map (\<lambda>(x, h). (x, h + c)) (zip X H)"
  by (induction X H rule: list_induct2) auto

lemma con_bomba_nth:
  fixes S :: "(real \<times> real) list"
  assumes "sorted (map fst S)" "x_b \<in> set (map fst S)"
  shows "fst (con_bomba S x_b head) ! idx_de S x_b = x_b"
    and "fst (con_bomba S x_b head) ! (idx_de S x_b + 1) = x_b"
    and "snd (con_bomba S x_b head) ! idx_de S x_b = altura_antes S x_b"
    and "snd (con_bomba S x_b head) ! (idx_de S x_b + 1) = snd (S ! idx_de S x_b) + head"
    and "idx_de S x_b + 1 < length (snd (con_bomba S x_b head))"
proof -
  let ?i = "idx_de S x_b"
  have lt: "?i < length S"
    using takeWhile_neq_less[OF assms(2)] by (simp add: idx_de_def)
  have l1: "length (take ?i (map fst S)) = ?i" "length (take ?i (map snd S)) = ?i"
    using lt by simp_all
  have d1: "drop ?i (map fst S) = x_b # drop (Suc ?i) (map fst S)"
    using lt idx_de_split(3)[OF assms] Cons_nth_drop_Suc[of ?i "map fst S"] by simp
  have d2: "drop ?i (map snd S) = snd (S ! ?i) # drop (Suc ?i) (map snd S)"
    using lt Cons_nth_drop_Suc[of ?i "map snd S"] by simp
  show "fst (con_bomba S x_b head) ! ?i = x_b"
    using l1 by (simp add: con_bomba_def Let_def nth_append)
  show "fst (con_bomba S x_b head) ! (?i + 1) = x_b"
    unfolding con_bomba_def Let_def fst_conv d1 using l1(1)
    by (simp add: nth_append del: length_take)
  show "snd (con_bomba S x_b head) ! ?i = altura_antes S x_b"
    using l1 by (simp add: con_bomba_def Let_def nth_append)
  show "snd (con_bomba S x_b head) ! (?i + 1) = snd (S ! ?i) + head"
    unfolding con_bomba_def Let_def snd_conv d2 list.map using l1(2)
    by (simp add: nth_append del: length_take)
  show "?i + 1 < length (snd (con_bomba S x_b head))"
    using lt con_bomba_length(2)[of S x_b head] by simp
qed

section \<open>The pump insertion primitive and the two ways the generators use it\<close>

text \<open>
  Claim C3, as the code has it. After \<open>agregar_bomba(xs, heads, p, h)\<close> on a non-empty
  profile, with \<open>c\<close> the renormalization constant: every sample at a position greater
  than \<open>p\<close> is the sample of the sorted pre-insertion profile shifted by \<open>h + c\<close>, and
  every sample at a position less than \<open>p\<close> is shifted by \<open>c\<close>. The two samples at the
  pump (the index of \<open>p\<close> in the sorted samples and the next one) both lie at \<open>p\<close>, and
  the head after the jump minus the head before it is \<open>h\<close> plus the difference between
  the profile's head at \<open>p\<close> and the head of the inserted point, which is interpolated
  at \<open>p - 1e-6\<close> (it is the profile's head at \<open>p\<close> itself, and the jump exactly \<open>h\<close>,
  when the pump has index 0).
\<close>

theorem agregar_bomba_salto:
  assumes "xs \<noteq> []" "length xs = length hs"
  shows "\<exists>xs' hs' c.
           agregar_bomba xs hs x_b head = Inr (xs', hs')
           \<and> filter (\<lambda>(x, h). x_b < x) (zip xs' hs')
               = map (\<lambda>(x, h). (x, h + head + c)) (filter (\<lambda>(x, h). x_b < x) (sort (zip xs hs)))
           \<and> filter (\<lambda>(x, h). x < x_b) (zip xs' hs')
               = map (\<lambda>(x, h). (x, h + c)) (filter (\<lambda>(x, h). x < x_b) (sort (zip xs hs)))
           \<and> xs' ! idx_de (muestras_ordenadas xs hs x_b) x_b = x_b
           \<and> xs' ! (idx_de (muestras_ordenadas xs hs x_b) x_b + 1) = x_b
           \<and> hs' ! (idx_de (muestras_ordenadas xs hs x_b) x_b + 1)
               - hs' ! idx_de (muestras_ordenadas xs hs x_b) x_b
               = head + (snd (muestras_ordenadas xs hs x_b ! idx_de (muestras_ordenadas xs hs x_b) x_b)
                         - altura_antes (muestras_ordenadas xs hs x_b) x_b)"
proof -
  let ?S = "muestras_ordenadas xs hs x_b"
  let ?i = "idx_de ?S x_b"
  let ?X = "fst (con_bomba ?S x_b head)"
  let ?H = "snd (con_bomba ?S x_b head)"
  let ?c = "last hs - last ?H"
  have srt: "sorted (map fst ?S)" by (rule sorted_map_fst[OF sorted_muestras])
  have mem: "x_b \<in> set (map fst ?S)" by (rule muestras_ordenadas_props(2)[OF assms])
  note N = con_bomba_nth[OF srt mem, of head]
  note Fc = filter_con_bomba[OF srt mem, of head]
  note Fm = filter_muestras[OF assms(2), of x_b]
  have len: "length ?X = length ?H" by (simp add: con_bomba_length)
  have z: "zip ?X (map (\<lambda>h. h + ?c) ?H) = map (\<lambda>(x, h). (x, h + ?c)) (zip ?X ?H)"
    by (rule zip_map_mas[OF len])
  have r: "agregar_bomba xs hs x_b head = Inr (?X, map (\<lambda>h. h + ?c) ?H)"
    by (rule agregar_bomba_eq[OF assms])
  have comp: "map (\<lambda>(x, h). (x, h + ?c)) (map (\<lambda>(x, h). (x, h + head)) L)
              = map (\<lambda>(x, h). (x, h + head + ?c)) L" for L :: "(real \<times> real) list"
    by (induction L) auto
  have a: "filter (\<lambda>(x, h). x_b < x) (zip ?X (map (\<lambda>h. h + ?c) ?H))
           = map (\<lambda>(x, h). (x, h + head + ?c)) (filter (\<lambda>(x, h). x_b < x) (sort (zip xs hs)))"
    by (simp only: z filter_map_mas[where P = "\<lambda>x. x_b < x"] Fc(2) Fm(2) comp)
  have b: "filter (\<lambda>(x, h). x < x_b) (zip ?X (map (\<lambda>h. h + ?c) ?H))
           = map (\<lambda>(x, h). (x, h + ?c)) (filter (\<lambda>(x, h). x < x_b) (sort (zip xs hs)))"
    by (simp only: z filter_map_mas[where P = "\<lambda>x. x < x_b"] Fc(1) Fm(1))
  have i1: "?i < length ?H" using N(5) by simp
  have j: "map (\<lambda>h. h + ?c) ?H ! (?i + 1) - map (\<lambda>h. h + ?c) ?H ! ?i
           = head + (snd (?S ! ?i) - altura_antes ?S x_b)"
    using N(3,4,5) i1 by (simp only: nth_map)
  show ?thesis
    apply (rule exI[of _ ?X])
    apply (rule exI[of _ "map (\<lambda>h. h + ?c) ?H"])
    apply (rule exI[of _ ?c])
    using r a b N(1,2) j by (intro conjI)
qed

text \<open>
  On a profile that falls from 100 to 0 over 10 units, a pump of head 20 at 5 gives a
  jump of \<open>50 - 30.00001 = 19.99999\<close>, not 20 within \<open>1e-9\<close>.
\<close>

theorem agregar_bomba_salto_inexacto:
  "agregar_bomba [0, 10] [100, 0] 5 20 = Inr ([0, 5, 5, 10], [80, 3000001 / 100000, 50, 0])
   \<and> \<not> \<bar>(50 - 3000001 / 100000) - (20::real)\<bar> \<le> 1 / 10 ^ 9"
  by (simp add: bomba_eval upt_rec)

text \<open>The theorem on the same profile.\<close>

theorem agregar_bomba_salto_witness:
  "[0::real, 10] \<noteq> [] \<and> length [0::real, 10] = length [100::real, 0]
   \<and> (\<exists>xs' hs' c.
         agregar_bomba [0, 10] [100, 0] 5 20 = Inr (xs', hs')
         \<and> filter (\<lambda>(x, h). 5 < x) (zip xs' hs') = [(10, 0 + 20 + c)]
         \<and> filter (\<lambda>(x, h). x < 5) (zip xs' hs') = [(0, 100 + c)]
         \<and> xs' ! 1 = 5 \<and> xs' ! 2 = 5 \<and> hs' ! 2 - hs' ! 1 = 20 + (50 - 5000001 / 100000))"
proof -
  have e: "muestras_ordenadas [0, 10] [100, 0] 5 = [(0, 100), (5, 50), (10, 0)]"
    by (simp add: muestras_ordenadas_def valor_interp_def np_interp_def ultimo_indice_le_def Let_def)
  have i: "idx_de [(0, 100), (5, 50), (10, 0)] 5 = 1"
    by (simp add: idx_de_def)
  have a: "altura_antes [(0, 100), (5, 50), (10, 0)] 5 = 5000001 / 100000"
    by (simp add: altura_antes_def i valor_interp_def np_interp_def ultimo_indice_le_def Let_def)
  have s: "sort (zip [0::real, 10] [100::real, 0]) = [(0, 100), (10, 0)]"
    by simp
  show ?thesis
    using agregar_bomba_salto[of "[0, 10]" "[100, 0]" 5 20]
    unfolding e i a s by (simp add: numeral_2_eq_2)
qed

text \<open>
  Claim C4, as the code has it. One step of the loop over the pumps of the backward
  known-final-head generator (\<open>insertar_bombas\<close>) applies no offset: the samples before
  the pump position are those of the sorted profile, unchanged, and the samples after it
  are raised by the head. One step of the loop over the known pumps of the
  boundary-constrained generator (\<open>agregar_conocidas\<close>) goes through \<open>agregar_bomba\<close>
  and yields the same lists shifted by a constant, so that the last head is the one
  from before the insertion.
\<close>

theorem insercion_con_y_sin_ajuste:
  assumes "xs \<noteq> []" "length xs = length hs"
  shows "\<exists>xc hc.
           colocar_bomba xs hs x_b (Some head) = Inr (xc, hc)
           \<and> insertar_bombas [\<lparr>bomba_x = x_b, bomba_head = Some head\<rparr>] (xs, hs) = Inr (xc, hc)
           \<and> filter (\<lambda>(x, h). x < x_b) (zip xc hc) = filter (\<lambda>(x, h). x < x_b) (sort (zip xs hs))
           \<and> filter (\<lambda>(x, h). x_b < x) (zip xc hc)
               = map (\<lambda>(x, h). (x, h + head)) (filter (\<lambda>(x, h). x_b < x) (sort (zip xs hs)))
           \<and> agregar_bomba xs hs x_b head = Inr (xc, map (\<lambda>h. h + (last hs - last hc)) hc)
           \<and> agregar_conocidas [\<lparr>bomba_x = x_b, bomba_head = Some head\<rparr>] (xs, hs, r)
               = Inr (xc, map (\<lambda>h. h + (last hs - last hc)) hc,
                      r @ [\<lparr>bomba_x = x_b, bomba_head = Some head\<rparr>])
           \<and> last (map (\<lambda>h. h + (last hs - last hc)) hc) = last hs"
proof -
  let ?S = "muestras_ordenadas xs hs x_b"
  let ?X = "fst (con_bomba ?S x_b head)"
  let ?H = "snd (con_bomba ?S x_b head)"
  have srt: "sorted (map fst ?S)" by (rule sorted_map_fst[OF sorted_muestras])
  have mem: "x_b \<in> set (map fst ?S)" by (rule muestras_ordenadas_props(2)[OF assms])
  note Fc = filter_con_bomba[OF srt mem, of head]
  note Fm = filter_muestras[OF assms(2), of x_b]
  have c: "colocar_bomba xs hs x_b (Some head) = Inr (?X, ?H)"
    using colocar_bomba_eq[OF assms, of x_b head] by simp
  have a: "agregar_bomba xs hs x_b head = Inr (?X, map (\<lambda>h. h + (last hs - last ?H)) ?H)"
    by (rule agregar_bomba_eq[OF assms])
  have ne: "?H \<noteq> []" using con_bomba_length(2)[of ?S x_b head] by auto
  have l: "last (map (\<lambda>h. h + (last hs - last ?H)) ?H) = last hs"
    using ne by (simp add: last_map)
  show ?thesis
    apply (rule exI[of _ ?X])
    apply (rule exI[of _ ?H])
    using c a l Fc Fm by simp
qed

text \<open>The theorem on a two-sample profile with a pump in the middle.\<close>

theorem insercion_con_y_sin_ajuste_witness:
  "[0::real, 10] \<noteq> [] \<and> length [0::real, 10] = length [100::real, 0]
   \<and> (\<exists>xc hc.
         colocar_bomba [0, 10] [100, 0] 5 (Some 20) = Inr (xc, hc)
         \<and> insertar_bombas [\<lparr>bomba_x = 5, bomba_head = Some 20\<rparr>] ([0, 10], [100, 0]) = Inr (xc, hc)
         \<and> filter (\<lambda>(x, h). x < 5) (zip xc hc) = [(0, 100)]
         \<and> filter (\<lambda>(x, h). 5 < x) (zip xc hc) = [(10, 0 + 20)]
         \<and> agregar_bomba [0, 10] [100, 0] 5 20 = Inr (xc, map (\<lambda>h. h + (0 - last hc)) hc)
         \<and> agregar_conocidas [\<lparr>bomba_x = 5, bomba_head = Some 20\<rparr>] ([0, 10], [100, 0], [])
             = Inr (xc, map (\<lambda>h. h + (0 - last hc)) hc, [\<lparr>bomba_x = 5, bomba_head = Some 20\<rparr>])
         \<and> last (map (\<lambda>h. h + (0 - last hc)) hc) = 0)"
proof -
  have s: "sort (zip [0::real, 10] [100::real, 0]) = [(0, 100), (10, 0)]"
    by simp
  show ?thesis
    using insercion_con_y_sin_ajuste[of "[0, 10]" "[100, 0]" 5 20 "[]"]
    unfolding s by simp
qed

text \<open>
  In the boundary-constrained generator a known pump of head 20 at position 5 lowers the
  head of the sample at position 0, which lies before the pump, by 20: the insertion is
  renormalized.
\<close>

theorem desconocida_ajusta_bomba_conocida:
  "generar_perfil_presion_con_bomba_desconocida [(0, 0), (10, 0)]
     \<lparr>densidad = 1, viscosidad = 1, velocidad = 1\<rparr> \<lparr>diametro = 1, rugosidad = None\<rparr> 7 5 []
     = Inr ([0, 10], [36905 / 981, 5], [])
   \<and> generar_perfil_presion_con_bomba_desconocida [(0, 0), (10, 0)]
       \<lparr>densidad = 1, viscosidad = 1, velocidad = 1\<rparr> \<lparr>diametro = 1, rugosidad = None\<rparr> 7 5
       [\<lparr>bomba_x = 5, bomba_head = Some 20\<rparr>]
     = Inr ([0, 5, 5, 10], [17285 / 981, 267709 / 204375, 20905 / 981, 5],
            [\<lparr>bomba_x = 5, bomba_head = Some 20\<rparr>])
   \<and> (17285 / 981 :: real) \<noteq> 36905 / 981"
  by (simp add: generador_eval bomba_eval upt_rec)

text \<open>
  What the sort of the insertion does. When the pump position is not among the positions
  of a non-empty profile, the head interpolated there is appended and the samples are
  sorted as pairs: the result holds the old samples and the new one, in ascending
  position, and samples at equal positions are in ascending head, whatever their order
  was.
\<close>

lemma reordenar_por_pares:
  assumes "xs \<noteq> []" "length xs = length hs" "x_b \<notin> set xs"
  shows "\<exists>h_bomba S.
           np_interp x_b xs hs = Inr h_bomba
           \<and> reordenar (xs @ [x_b]) (hs @ [h_bomba]) = Inr (map fst S, map snd S)
           \<and> mset S = mset (zip xs hs) + {#(x_b, h_bomba)#}
           \<and> sorted (map fst S)
           \<and> sorted_wrt (\<lambda>(x1, h1) (x2, h2). x1 < x2 \<or> x1 = x2 \<and> h1 \<le> h2) S
           \<and> colocar_bomba xs hs x_b (Some head) = Inr (con_bomba S x_b head)"
proof -
  let ?v = "valor_interp x_b xs hs"
  let ?S = "muestras_ordenadas xs hs x_b"
  have S: "?S = sort (zip (xs @ [x_b]) (hs @ [?v]))"
    using assms(2,3) by (simp add: muestras_ordenadas_def)
  have i: "np_interp x_b xs hs = Inr ?v"
    by (rule np_interp_valor[OF assms(1,2)])
  have r: "reordenar (xs @ [x_b]) (hs @ [?v]) = Inr (map fst ?S, map snd ?S)"
    using reordenar_eq[of "xs @ [x_b]" "hs @ [?v]"] assms(2) S by simp
  have m: "mset ?S = mset (zip xs hs) + {#(x_b, ?v)#}"
    using assms(2) by (simp add: S)
  have s1: "sorted (map fst ?S)"
    by (rule sorted_map_fst[OF sorted_muestras])
  have s2: "sorted_wrt (\<lambda>(x1, h1) (x2, h2). x1 < x2 \<or> x1 = x2 \<and> h1 \<le> h2) ?S"
    by (rule sorted_wrt_mono_rel[OF _ sorted_muestras]) auto
  have c: "colocar_bomba xs hs x_b (Some head) = Inr (con_bomba ?S x_b head)"
    by (rule colocar_bomba_eq[OF assms(1,2)])
  show ?thesis
    using i r m s1 s2 c by blast
qed

text \<open>
  Claim C8, at an input where the code breaks it. A profile that \<open>agregar_bomba\<close> itself
  returns (a pump of head -5 at the first position) has two samples at position 0 with
  the heads 105 and 100, in this order. Inserting a pump at the new position 5 must keep
  samples at equal positions in their original order; the code sorts the pairs, which
  puts the sample with head 100 first, where the sort on the position alone that the
  claim describes (\<open>spec_reordenar\<close>) keeps the order 105, 100.
\<close>

theorem reordenar_no_estable:
  "agregar_bomba [0, 10] [100, 0] 0 (- 5) = Inr ([0, 0, 10], [105, 100, 0])
   \<and> agregar_bomba [0, 0, 10] [105, 100, 0] 5 10
       = Inr ([0, 0, 5, 5, 10], [90, 95, 40000011 / 1000000, 50, 0])
   \<and> reordenar [0, 0, 10, 5] [105, 100, 0, 50] = Inr ([0, 0, 5, 10], [100, 105, 50, 0])
   \<and> spec_reordenar [0, 0, 10, 5] [105, 100, 0, 50] = Inr ([0, 0, 5, 10], [105, 100, 50, 0])"
  by (simp add: bomba_eval spec_reordenar_def upt_rec)

text \<open>
  Where the boundary-constrained generator does close the gap: on a profile whose
  samples are in ascending order as pairs, the sort of \<open>agregar_bomba\<close> keeps the first
  and the last sample in place, so the insertion lowers the first head by exactly the
  pump head. With a strictly increasing terrain and the unknown pump as the only pump,
  the first head returned is \<open>presion_inicial_m + z[0]\<close>.
\<close>

lemma sort_snoc_sorted:
  fixes L :: "(real \<times> real) list"
  shows "sorted L \<Longrightarrow> sort (L @ [a]) = insort a L"
  by (rule properties_for_sort) (simp_all add: sorted_insort)

lemma hd_insort:
  fixes L :: "(real \<times> real) list"
  shows "hd (insort a L) = (if L = [] \<or> a \<le> hd L then a else hd L)"
  by (cases L) auto

lemma last_insort:
  fixes L :: "(real \<times> real) list"
  shows "sorted L \<Longrightarrow> L \<noteq> [] \<Longrightarrow> last (insort a L) = (if last L < a then a else last L)"
proof (induction L)
  case Nil
  then show ?case by simp
next
  case (Cons b L)
  show ?case
  proof (cases "L = []")
    case True
    then show ?thesis by auto
  next
    case False
    then have bl: "b \<le> last L" using Cons.prems(1) by auto
    have nc: "\<not> (last L < a \<and> a \<le> b)"
    proof
      assume "last L < a \<and> a \<le> b"
      then have "last L < b" by (auto intro: less_le_trans)
      then show False using bl by (simp add: not_less[symmetric])
    qed
    show ?thesis using Cons False nc by (auto simp: insort_is_Cons)
  qed
qed

lemma zip_hd_last:
  assumes "xs \<noteq> []" "length xs = length hs"
  shows "hd (zip xs hs) = (hd xs, hd hs)" "last (zip xs hs) = (last xs, last hs)" "zip xs hs \<noteq> []"
proof -
  have hs: "hs \<noteq> []" using assms by auto
  show "zip xs hs \<noteq> []" using assms(1) hs by (cases xs; cases hs) auto
  show "hd (zip xs hs) = (hd xs, hd hs)" using assms(1) hs by (cases xs; cases hs) auto
  show "last (zip xs hs) = (last xs, last hs)"
    using assms hs by (simp add: last_conv_nth)
qed

lemma muestras_extremos:
  assumes "xs \<noteq> []" "length xs = length hs" "sorted (zip xs hs)"
  shows "snd (hd (muestras_ordenadas xs hs x_b)) = hd hs"
    and "snd (last (muestras_ordenadas xs hs x_b)) = last hs"
proof -
  note Z = zip_hd_last[OF assms(1,2)]
  have sx: "sorted xs"
    using sorted_map_fst[OF assms(3)] assms(2) by simp
  have hl: "hd xs \<le> last xs"
    using sx assms(1) by (metis sorted_le_last hd_in_set)
  show "snd (hd (muestras_ordenadas xs hs x_b)) = hd hs"
  proof (cases "x_b \<in> set xs")
    case True
    then show ?thesis using assms(3) Z by (simp add: muestras_ordenadas_def sort_key_id_if_sorted)
  next
    case False
    then have ne: "x_b \<noteq> hd xs" using assms(1) by auto
    have v: "x_b < hd xs \<Longrightarrow> valor_interp x_b xs hs = hd hs"
      using assms(1,2) hl by (simp add: valor_interp_def np_interp_def)
    show ?thesis
      using False assms(3) Z ne v
      by (auto simp: muestras_ordenadas_def sort_snoc_sorted hd_insort)
  qed
  show "snd (last (muestras_ordenadas xs hs x_b)) = last hs"
  proof (cases "x_b \<in> set xs")
    case True
    then show ?thesis using assms(3) Z by (simp add: muestras_ordenadas_def sort_key_id_if_sorted)
  next
    case False
    then have ne: "x_b \<noteq> last xs" using assms(1) by auto
    have v: "last xs < x_b \<Longrightarrow> valor_interp x_b xs hs = last hs"
      using assms(1,2) by (simp add: valor_interp_def np_interp_def)
    show ?thesis
      using False assms(3) Z ne v
      by (auto simp: muestras_ordenadas_def sort_snoc_sorted last_insort)
  qed
qed

lemma con_bomba_extremos:
  assumes "S \<noteq> []" "idx_de S x_b < length S"
  shows "snd (con_bomba S x_b head) ! 0 = snd (hd S)"
    and "last (snd (con_bomba S x_b head)) = snd (last S) + head"
proof -
  let ?i = "idx_de S x_b"
  have d: "drop ?i (map snd S) \<noteq> []" using assms(2) by simp
  have "last (map (\<lambda>h. h + head) (drop ?i (map snd S))) = last (map snd S) + head"
    using d assms(2) by (simp add: last_map del: drop_eq_Nil)
  then show "last (snd (con_bomba S x_b head)) = snd (last S) + head"
    using d assms(1) by (simp add: con_bomba_def Let_def last_map del: drop_eq_Nil)
  show "snd (con_bomba S x_b head) ! 0 = snd (hd S)"
  proof (cases "?i = 0")
    case True
    then show ?thesis using assms(1) by (simp add: con_bomba_def Let_def altura_antes_def hd_conv_nth)
  next
    case False
    then show ?thesis using assms by (simp add: con_bomba_def Let_def nth_append hd_conv_nth)
  qed
qed

lemma agregar_bomba_primera:
  assumes "xs \<noteq> []" "length xs = length hs" "sorted (zip xs hs)"
    "agregar_bomba xs hs x_b head = Inr (xs', hs')"
  shows "hs' ! 0 = hs ! 0 - head"
proof -
  let ?S = "muestras_ordenadas xs hs x_b"
  let ?H = "snd (con_bomba ?S x_b head)"
  note P = muestras_ordenadas_props[OF assms(1,2), of x_b]
  note E = con_bomba_extremos[OF P(1) P(3), of head]
  note M = muestras_extremos[OF assms(1-3), of x_b]
  have hs': "hs' = map (\<lambda>h. h + (last hs - last ?H)) ?H"
    using assms(4) agregar_bomba_eq[OF assms(1,2), of x_b head] by simp
  have ne: "?H \<noteq> []" using con_bomba_length(2)[of ?S x_b head] by auto
  have "hs \<noteq> []" using assms(1,2) by auto
  then have "hd hs = hs ! 0" by (simp add: hd_conv_nth)
  then show ?thesis
    using ne E M by (simp add: hs')
qed

lemma sorted_zip_estricto:
  fixes xs :: "real list" and hs :: "real list"
  shows "length xs = length hs \<Longrightarrow> sorted_wrt (<) xs \<Longrightarrow> sorted (zip xs hs)"
proof (induction xs hs rule: list_induct2)
  case Nil
  then show ?case by simp
next
  case (Cons x xs h hs)
  have "\<forall>p \<in> set (zip xs hs). (x, h) \<le> p"
  proof
    fix p assume "p \<in> set (zip xs hs)"
    then have "(fst p, snd p) \<in> set (zip xs hs)" by simp
    then have "fst p \<in> set xs" by (rule set_zip_leftD)
    then have "x < fst p" using Cons.prems by auto
    then show "(x, h) \<le> p" by (cases p) auto
  qed
  then show ?case using Cons by simp
qed

lemma desconocida_cierra_sin_conocidas:
  assumes "df \<noteq> []" "sorted_wrt (<) (map fst df)" "factor_del_sistema fl tb = Inr f"
    "bomba_head b = None"
  shows "\<exists>x_final h_final head.
           generar_perfil_presion_con_bomba_desconocida df fl tb presion_inicial_m presion_final_m [b]
             = Inr (x_final, h_final, [\<lparr>bomba_x = bomba_x b, bomba_head = Some head\<rparr>])
           \<and> h_final ! 0 = presion_inicial_m + snd (df ! 0)"
proof -
  let ?H = "rev (perfil_reverso (rev (map fst df)) (rev (map snd df)) f (diametro tb) (velocidad fl) presion_final_m)"
  let ?head = "?H ! 0 - (presion_inicial_m + map snd df ! 0)"
  have p: "perfil_sin_bombas df fl tb presion_final_m = Inr (map fst df, ?H)"
    by (rule perfil_sin_bombas_Inr[OF assms(1,3)])
  have l: "map fst df \<noteq> []" "length (map fst df) = length ?H"
    using assms(1) by (simp_all add: length_perfil_reverso)
  have s: "sorted (zip (map fst df) ?H)"
    by (rule sorted_zip_estricto[OF l(2) assms(2)])
  obtain xs' hs' where a: "agregar_bomba (map fst df) ?H (bomba_x b) ?head = Inr (xs', hs')"
    using agregar_bomba_eq[OF l, of "bomba_x b" ?head] by simp
  have "hs' ! 0 = ?H ! 0 - ?head"
    by (rule agregar_bomba_primera[OF l s a])
  then have first: "hs' ! 0 = presion_inicial_m + snd (df ! 0)"
    using assms(1) by (simp add: nth_map)
  have g: "generar_perfil_presion_con_bomba_desconocida df fl tb presion_inicial_m presion_final_m [b]
             = Inr (xs', hs', [\<lparr>bomba_x = bomba_x b, bomba_head = Some ?head\<rparr>])"
    using assms(4) a by (simp add: generar_perfil_presion_con_bomba_desconocida_def p Let_def)
  show ?thesis
    unfolding g using first by simp
qed

text \<open>
  Claim C2 at two pump lists with one unknown pump at position 5: the sort by pairs moves
  a sample the unknown head was computed from. With a known pump of
  head -5 at the first position the profile returned starts at the head 2, where
  \<open>presion_inicial_m + z[0] = 7\<close>; with a known pump of head 0 at the last position it
  starts about \<open>3.3e-6\<close> below 7.
\<close>

theorem desconocida_no_cierra:
  "generar_perfil_presion_con_bomba_desconocida [(0, 0), (10, 0)]
     \<lparr>densidad = 1, viscosidad = 1, velocidad = 1\<rparr> \<lparr>diametro = 1, rugosidad = None\<rparr> 7 5
     [\<lparr>bomba_x = 0, bomba_head = Some (- 5)\<rparr>, \<lparr>bomba_x = 5, bomba_head = None\<rparr>]
   = Inr ([0, 0, 5, 5, 10], [2, 7, - (14037995819 / 981000000), 20905 / 981, 5],
          [\<lparr>bomba_x = 0, bomba_head = Some (- 5)\<rparr>, \<lparr>bomba_x = 5, bomba_head = Some (34943 / 981)\<rparr>])
   \<and> \<not> \<bar>(2::real) - (7 + 0)\<bar> \<le> 1 / 10 ^ 9
   \<and> generar_perfil_presion_con_bomba_desconocida [(0, 0), (10, 0)]
       \<lparr>densidad = 1, viscosidad = 1, velocidad = 1\<rparr> \<lparr>diametro = 1, rugosidad = None\<rparr> 7 5
       [\<lparr>bomba_x = 10, bomba_head = Some 0\<rparr>, \<lparr>bomba_x = 5, bomba_head = None\<rparr>]
     = Inr ([0, 5, 5, 10, 10],
            [4291873 / 613125, - (28540620000001 / 3065625000000), 1451736 / 68125,
             3065623 / 613125, 5],
            [\<lparr>bomba_x = 10, bomba_head = Some 0\<rparr>, \<lparr>bomba_x = 5, bomba_head = Some (30038 / 981)\<rparr>])
   \<and> \<not> \<bar>(4291873 / 613125 :: real) - (7 + 0)\<bar> \<le> 1 / 10 ^ 9"
  by (simp add: generador_eval bomba_eval upt_rec)


section \<open>Rounding to double precision\<close>

lemma redondeo_par_cerca:
  assumes "\<bar>y - of_int m\<bar> < 1 / 2"
  shows "redondeo_par y = m"
proof (cases "of_int m \<le> y")
  case True
  then have "\<lfloor>y\<rfloor> = m" using assms by (simp add: floor_eq_iff abs_less_iff) 
  then show ?thesis using assms True by (simp add: redondeo_par_def Let_def abs_less_iff)
next
  case False
  then have f: "\<lfloor>y\<rfloor> = m - 1" using assms by (simp add: floor_eq_iff abs_less_iff)
  have "\<not> y - of_int (m - 1) < 1 / 2" "1 / 2 < y - of_int (m - 1)"
    using assms False by (simp_all add: abs_less_iff)
  then show ?thesis by (simp add: redondeo_par_def Let_def f)
qed

lemma redondeo_par_error: "\<bar>of_int (redondeo_par y) - y\<bar> \<le> 1 / 2"
proof -
  have "of_int \<lfloor>y\<rfloor> \<le> y" "y < of_int \<lfloor>y\<rfloor> + 1" by linarith+
  then show ?thesis
    by (auto simp: redondeo_par_def Let_def abs_le_iff)
qed

lemma floor_log2:
  assumes "2 powr of_int E \<le> x" "x < 2 powr (of_int E + 1)"
  shows "\<lfloor>log 2 x\<rfloor> = E"
proof -
  have pos: "0 < x" using assms(1) by (smt (verit) powr_gt_zero)
  have "of_int E \<le> log 2 x" using assms(1) pos by (simp add: le_log_iff)
  moreover have "log 2 x < of_int E + 1" using assms(2) pos by (simp add: log_less_iff)
  ultimately show ?thesis by (simp add: floor_eq_iff)
qed

lemma doble_val:
  assumes "2 powr of_int E \<le> \<bar>x\<bar>" "\<bar>x\<bar> < 2 powr (of_int E + 1)"
    "\<bar>x / 2 powr of_int (E - 52) - of_int m\<bar> < 1 / 2"
  shows "doble x = of_int m * 2 powr of_int (E - 52)"
proof -
  have "x \<noteq> 0" using assms(1) by (smt (verit) powr_gt_zero)
  then show ?thesis
    using floor_log2[OF assms(1,2)] redondeo_par_cerca[OF assms(3)]
    by (simp add: doble_def Let_def)
qed

lemma powr_menos: "(2::real) powr (- numeral n) = 1 / 2 ^ numeral n"
  by (simp add: powr_minus powr_numeral inverse_eq_divide)

lemma doble_0: "doble 0 = 0"
  by (simp add: doble_def)

lemma doble_error: "\<bar>doble x - x\<bar> \<le> \<bar>x\<bar> / 2 ^ 53"
proof (cases "x = 0")
  case True
  then show ?thesis by (simp add: doble_0)
next
  case False
  define E where "E = \<lfloor>log 2 \<bar>x\<bar>\<rfloor>"
  define s :: real where "s = 2 powr of_int (E - 52)"
  define y where "y = x / s"
  have spos: "0 < s" by (simp add: s_def)
  have d: "doble x = of_int (redondeo_par y) * s"
    using False by (simp add: doble_def Let_def E_def s_def y_def)
  have x: "x = y * s" using spos by (simp add: y_def)
  have "of_int (redondeo_par y) * s - y * s = (of_int (redondeo_par y) - y) * s"
    by (simp add: algebra_simps)
  then have "doble x - x = (of_int (redondeo_par y) - y) * s"
    using d x by simp
  then have "\<bar>doble x - x\<bar> = \<bar>of_int (redondeo_par y) - y\<bar> * s"
    using spos by (simp add: abs_mult)
  also have "\<dots> \<le> (1 / 2) * s"
    using redondeo_par_error[of y] spos by (intro mult_right_mono) simp_all
  finally have b: "\<bar>doble x - x\<bar> \<le> s / 2" by simp
  have "of_int E \<le> log 2 \<bar>x\<bar>" by (simp add: E_def)
  then have "2 powr of_int E \<le> \<bar>x\<bar>"
    using False by (simp add: le_log_iff)
  moreover have "s = 2 powr of_int E / 2 ^ 52"
    by (simp add: s_def powr_diff powr_numeral)
  ultimately have "s / 2 \<le> \<bar>x\<bar> / 2 ^ 53"
    by simp
  then show ?thesis using b by linarith
qed

end
